theory Spec2Isabelle
  imports Main "HOL-Library.Word"
begin

section \<open>A shallow embedding of the ESP32\_AutoOTA library\<close>

text \<open>
  The class \<^verbatim>\<open>ESP32_AutoOTA\<close> (include/ESP32\_AutoOTA.h, src/ESP32\_AutoOTA.cpp) is
  embedded as a record of its private members and one function per method.  A method
  takes the object, and the values the outside world hands to it during the call (the
  WiFi status, the HTTP responses, the answers of the flash writer, \<^verbatim>\<open>millis()\<close>,
  \<^verbatim>\<open>random()\<close>), and returns the object afterwards together with the list of the
  calls it made to the outside world, in program order.

  \<^item> \<^verbatim>\<open>unsigned long\<close>, \<^verbatim>\<open>size_t\<close> and \<^verbatim>\<open>uint32_t\<close> are 32-bit words on the
    ESP32, \<^verbatim>\<open>uint8_t\<close> is an 8-bit word; arithmetic on them wraps around.
  \<^item> A \<^verbatim>\<open>char[N]\<close> member is a list of \<open>N\<close> characters; the C string it holds
    is the part before its first NUL.
  \<^item> A callback pointer is \<open>None\<close> (\<^verbatim>\<open>NULL\<close>) or \<open>Some f\<close>, the user function
    \<open>f\<close>.  User callbacks are opaque: the call is recorded, and the callback is taken
    not to touch the object.
\<close>

type_synonym u8 = "8 word"
type_synonym u32 = "32 word"

subsection \<open>C strings\<close>

abbreviation NUL :: char where
  "NUL \<equiv> CHR 0x00"

text \<open>The C string that starts at a pointer: the bytes before the first NUL.\<close>

definition c_str :: "string \<Rightarrow> string" where
  "c_str p = takeWhile (\<lambda>c. c \<noteq> NUL) p"

definition strlen :: "string \<Rightarrow> nat" where
  "strlen p = length (c_str p)"

text \<open>
  \<^verbatim>\<open>strncpy(dst, src, n)\<close> writes exactly \<open>n\<close> bytes: the first \<open>n\<close> characters of
  the C string \<open>src\<close>, padded with NUL when the string is shorter.  The bytes of
  \<open>dst\<close> from index \<open>n\<close> on are kept.
\<close>

definition strncpy :: "string \<Rightarrow> string \<Rightarrow> nat \<Rightarrow> string" where
  "strncpy dst src n =
     (let s = take n (c_str src)
      in s @ replicate (n - length s) NUL @ drop n dst)"

text \<open>\<^verbatim>\<open>strcpy(dst, src)\<close> writes the C string \<open>src\<close> and its terminator.\<close>

definition strcpy :: "string \<Rightarrow> string \<Rightarrow> string" where
  "strcpy dst src = c_str src @ NUL # drop (Suc (strlen src)) dst"

text \<open>The text \<^verbatim>\<open>printf\<close> writes for \<^verbatim>\<open>%d\<close> and \<^verbatim>\<open>%lu\<close>.\<close>

fun dec_nat :: "nat \<Rightarrow> string" where
  "dec_nat n =
     (if n < 10 then [''0123456789'' ! n]
      else dec_nat (n div 10) @ [''0123456789'' ! (n mod 10)])"

declare dec_nat.simps [simp del]

definition dec_int :: "int \<Rightarrow> string" where
  "dec_int i = (if i < 0 then CHR ''-'' # dec_nat (nat (- i)) else dec_nat (nat i))"

text \<open>
  The Arduino \<^verbatim>\<open>String\<close> methods used on the downloaded version text.
  \<^verbatim>\<open>trim()\<close> removes the characters \<^verbatim>\<open>isspace\<close> accepts from both ends;
  \<^verbatim>\<open>equals(const char*)\<close> is \<^verbatim>\<open>strcmp(...) == 0\<close>.
\<close>

definition isspace :: "char \<Rightarrow> bool" where
  "isspace c = (c \<in> {CHR '' '', CHR 0x09, CHR 0x0A, CHR 0x0B, CHR 0x0C, CHR 0x0D})"

definition trim :: "string \<Rightarrow> string" where
  "trim str = rev (dropWhile isspace (rev (dropWhile isspace str)))"

definition String_equals :: "string \<Rightarrow> string \<Rightarrow> bool" where
  "String_equals str cstr = (c_str str = c_str cstr)"

text \<open>The Arduino macro \<^verbatim>\<open>constrain(amt, low, high)\<close>, on promoted integers.\<close>

definition constrain :: "int \<Rightarrow> int \<Rightarrow> int \<Rightarrow> int" where
  "constrain amt low high = (if amt < low then low else if high < amt then high else amt)"

subsection \<open>The object\<close>

record ota =
  m_firmwareURL :: string         \<comment> \<open>\<^verbatim>\<open>char _firmwareURL[256]\<close>\<close>
  m_versionURL :: string          \<comment> \<open>\<^verbatim>\<open>char _versionURL[256]\<close>\<close>
  m_currentVersion :: string      \<comment> \<open>\<^verbatim>\<open>char _currentVersion[32]\<close>\<close>
  m_checkInterval :: u32
  m_minRandomDelay :: u32
  m_maxRandomDelay :: u32
  m_staggeredRollout :: bool
  m_rolloutPercentage :: u8
  m_statusLED :: int
  m_maxRetries :: u8
  m_debugMode :: bool
  m_isRunning :: bool
  m_taskHandle :: "nat option"
  m_lastCheckTime :: u32
  m_retryCount :: u8
  m_lastError :: string           \<comment> \<open>\<^verbatim>\<open>char _lastError[128]\<close>\<close>
  m_forceCheckFlag :: bool
  m_onUpdateStart :: "nat option"
  m_onUpdateProgress :: "nat option"
  m_onUpdateComplete :: "nat option"
  m_onUpdateError :: "nat option"
  m_onVersionCheck :: "nat option"

text \<open>The sizes of the four character arrays, as the header declares them.\<close>

definition buffers_sized :: "ota \<Rightarrow> bool" where
  "buffers_sized s =
     (length (m_firmwareURL s) = 256 \<and> length (m_versionURL s) = 256 \<and>
      length (m_currentVersion s) = 32 \<and> length (m_lastError s) = 128)"

subsection \<open>Calls to the outside world\<close>

text \<open>
  The two \<^verbatim>\<open>HTTPClient http\<close> objects: the local of \<^verbatim>\<open>checkForUpdate\<close> and the
  local of \<^verbatim>\<open>performUpdate\<close>.
\<close>

datatype http_client = VersionHTTP | FirmwareHTTP

datatype event =
    Serial_println string
  | Call_OTACallback nat
  | Call_OTAProgressCallback nat u32 u32
  | Call_OTAErrorCallback nat string
  | Http_begin http_client string
  | Http_addHeader http_client string string
  | Http_GET http_client
  | Http_end http_client
  | Update_begin u32
  | Stream_readBytes u32
  | Update_write u32
  | Update_end
  | PinMode_OUTPUT u8             \<comment> \<open>\<^verbatim>\<open>pinMode(uint8_t pin, OUTPUT)\<close>\<close>
  | DigitalWrite u8 bool          \<comment> \<open>\<^verbatim>\<open>digitalWrite(uint8_t pin, uint8_t val)\<close>\<close>
  | Delay_ms u32                  \<comment> \<open>\<^verbatim>\<open>delay(uint32_t ms)\<close>\<close>
  | VTaskDelay_ms u32             \<comment> \<open>\<^verbatim>\<open>vTaskDelay(ms / portTICK_PERIOD_MS)\<close>\<close>
  | XTaskCreate
  | VTaskDelete nat
  | ESP_restart
  | Store_forceCheckFlag bool     \<comment> \<open>an assignment to \<^verbatim>\<open>_forceCheckFlag\<close>\<close>

text \<open>
  The calls are recorded with the arguments the callee receives: \<^verbatim>\<open>pinMode\<close>,
  \<^verbatim>\<open>digitalWrite\<close> and \<^verbatim>\<open>digitalRead\<close> take the pin as a \<^verbatim>\<open>uint8_t\<close> and \<^verbatim>\<open>delay\<close> takes a
  \<^verbatim>\<open>uint32_t\<close>, so the \<^verbatim>\<open>int\<close> the library passes is converted.

  \<^verbatim>\<open>_forceCheckFlag\<close> is the member that two tasks write: the caller of \<^verbatim>\<open>forceCheck()\<close>
  sets it and the background task clears it.  An assignment to it after the constructor
  is recorded among the calls, at its place in program order, so that a list of calls
  tells what the flag held when each call was made.
\<close>

text \<open>What \<^verbatim>\<open>begin()\<close> reads from the outside world.\<close>

record begin_env =
  WiFi_connected :: bool               \<comment> \<open>\<^verbatim>\<open>WiFi.status() == WL_CONNECTED\<close>\<close>
  xTaskCreate_handle :: "nat option"   \<comment> \<open>\<open>Some h\<close>: \<^verbatim>\<open>pdPASS\<close>, the handle written; \<open>None\<close>: failure\<close>

text \<open>
  What one evaluation of the condition and the body of the write loop of
  \<^verbatim>\<open>performUpdate\<close> reads.
\<close>

record poll =
  http_connected :: bool
  stream_available :: u32
  stream_readBytes :: u32       \<comment> \<open>the result of \<^verbatim>\<open>stream.readBytes\<close>\<close>
  update_write :: u32           \<comment> \<open>the result of \<^verbatim>\<open>Update.write\<close>\<close>
  digitalRead_LED :: bool

text \<open>What one call of \<^verbatim>\<open>checkForUpdate()\<close> reads.\<close>

record check_env =
  version_GET :: int            \<comment> \<open>the result of \<^verbatim>\<open>http.GET()\<close> on the version URL\<close>
  version_getString :: string
  macAddress :: "u8 list"       \<comment> \<open>the six bytes \<^verbatim>\<open>WiFi.macAddress(mac)\<close> writes\<close>
  firmware_GET :: int
  firmware_getSize :: u32       \<comment> \<open>an \<^verbatim>\<open>int\<close>, read with \<open>sint\<close>\<close>
  update_begin :: bool
  polls :: "poll list"
  update_end :: bool
  update_isFinished :: bool
  update_getError :: u8

text \<open>What one iteration of the loop of \<^verbatim>\<open>otaTask()\<close> reads.\<close>

record iter_env =
  wifi_connected :: bool
  millis_before :: u32          \<comment> \<open>\<^verbatim>\<open>millis()\<close> in the condition of line 203\<close>
  millis_after :: u32           \<comment> \<open>\<^verbatim>\<open>millis()\<close> in line 216\<close>
  random_jitter :: u32          \<comment> \<open>the result of \<^verbatim>\<open>random(-variation, variation)\<close>\<close>
  check :: check_env

subsection \<open>Logging, callbacks, the status LED\<close>

definition log :: "ota \<Rightarrow> string \<Rightarrow> event list" where
  "log s message = (if m_debugMode s then [Serial_println message] else [])"

text \<open>
  \<^verbatim>\<open>logf\<close> takes the text its format and arguments produce; \<^verbatim>\<open>vsnprintf\<close> cuts it
  to the 255 characters that fit its buffer.
\<close>

definition logf :: "ota \<Rightarrow> string \<Rightarrow> event list" where
  "logf s formatted = (if m_debugMode s then [Serial_println (take 255 formatted)] else [])"

definition invoke :: "nat option \<Rightarrow> event list" where
  "invoke cb = (case cb of None \<Rightarrow> [] | Some f \<Rightarrow> [Call_OTACallback f])"

definition blinkLED :: "ota \<Rightarrow> nat \<Rightarrow> int \<Rightarrow> event list" where
  "blinkLED s ntimes delayMs =
     (if m_statusLED s < 0 then []
      else concat (replicate ntimes
             [DigitalWrite (word_of_int (m_statusLED s)) True, Delay_ms (word_of_int delayMs),
              DigitalWrite (word_of_int (m_statusLED s)) False, Delay_ms (word_of_int delayMs)]))"

definition setError :: "string \<Rightarrow> ota \<Rightarrow> ota \<times> event list" where
  "setError error s =
     (s\<lparr>m_lastError := (strncpy (m_lastError s) error 127)[127 := NUL]\<rparr>,
      logf s (''[AutoOTA] ERROR: '' @ c_str error) @
      (case m_onUpdateError s of
         None \<Rightarrow> []
       | Some f \<Rightarrow> [Call_OTAErrorCallback f (c_str error)]))"

subsection \<open>Constructor and configuration\<close>

text \<open>
  The constructor writes every scalar member, the first byte of three of the arrays and
  the six bytes of \<^verbatim>\<open>"0.0.0"\<close>; the other bytes of the arrays keep what the storage
  held, which is its argument.
\<close>

definition ESP32_AutoOTA :: "ota \<Rightarrow> ota" where
  "ESP32_AutoOTA raw =
     \<lparr>m_firmwareURL = (m_firmwareURL raw)[0 := NUL],
      m_versionURL = (m_versionURL raw)[0 := NUL],
      m_currentVersion = strcpy (m_currentVersion raw) ''0.0.0'',
      m_checkInterval = 300000,
      m_minRandomDelay = 60000,
      m_maxRandomDelay = 180000,
      m_staggeredRollout = False,
      m_rolloutPercentage = 50,
      m_statusLED = - 1,
      m_maxRetries = 3,
      m_debugMode = True,
      m_isRunning = False,
      m_taskHandle = None,
      m_lastCheckTime = 0,
      m_retryCount = 0,
      m_lastError = (m_lastError raw)[0 := NUL],
      m_forceCheckFlag = False,
      m_onUpdateStart = None,
      m_onUpdateProgress = None,
      m_onUpdateComplete = None,
      m_onUpdateError = None,
      m_onVersionCheck = None\<rparr>"

definition setFirmwareURL :: "string \<Rightarrow> ota \<Rightarrow> ota" where
  "setFirmwareURL url s = s\<lparr>m_firmwareURL := (strncpy (m_firmwareURL s) url 255)[255 := NUL]\<rparr>"

definition setVersionURL :: "string \<Rightarrow> ota \<Rightarrow> ota" where
  "setVersionURL url s = s\<lparr>m_versionURL := (strncpy (m_versionURL s) url 255)[255 := NUL]\<rparr>"

definition setCurrentVersion :: "string \<Rightarrow> ota \<Rightarrow> ota" where
  "setCurrentVersion version s =
     s\<lparr>m_currentVersion := (strncpy (m_currentVersion s) version 31)[31 := NUL]\<rparr>"

definition setCheckInterval :: "u32 \<Rightarrow> ota \<Rightarrow> ota" where
  "setCheckInterval intervalMs s = s\<lparr>m_checkInterval := intervalMs\<rparr>"

definition setRandomDelay :: "u32 \<Rightarrow> u32 \<Rightarrow> ota \<Rightarrow> ota" where
  "setRandomDelay minMs maxMs s = s\<lparr>m_minRandomDelay := minMs, m_maxRandomDelay := maxMs\<rparr>"

definition setStaggeredRollout :: "bool \<Rightarrow> u8 \<Rightarrow> ota \<Rightarrow> ota" where
  "setStaggeredRollout enable percentage s =
     s\<lparr>m_staggeredRollout := enable,
       m_rolloutPercentage := word_of_int (constrain (uint percentage) 0 100)\<rparr>"

definition setStatusLED :: "int \<Rightarrow> ota \<Rightarrow> ota \<times> event list" where
  "setStatusLED pin s =
     (s\<lparr>m_statusLED := pin\<rparr>,
      if 0 \<le> pin then [PinMode_OUTPUT (word_of_int pin), DigitalWrite (word_of_int pin) False]
      else [])"

definition setMaxRetries :: "u8 \<Rightarrow> ota \<Rightarrow> ota" where
  "setMaxRetries retries s = s\<lparr>m_maxRetries := retries\<rparr>"

definition setDebugMode :: "bool \<Rightarrow> ota \<Rightarrow> ota" where
  "setDebugMode enable s = s\<lparr>m_debugMode := enable\<rparr>"

definition onUpdateStart :: "nat option \<Rightarrow> ota \<Rightarrow> ota" where
  "onUpdateStart callback s = s\<lparr>m_onUpdateStart := callback\<rparr>"

definition onUpdateProgress :: "nat option \<Rightarrow> ota \<Rightarrow> ota" where
  "onUpdateProgress callback s = s\<lparr>m_onUpdateProgress := callback\<rparr>"

definition onUpdateComplete :: "nat option \<Rightarrow> ota \<Rightarrow> ota" where
  "onUpdateComplete callback s = s\<lparr>m_onUpdateComplete := callback\<rparr>"

definition onUpdateError :: "nat option \<Rightarrow> ota \<Rightarrow> ota" where
  "onUpdateError callback s = s\<lparr>m_onUpdateError := callback\<rparr>"

definition onVersionCheck :: "nat option \<Rightarrow> ota \<Rightarrow> ota" where
  "onVersionCheck callback s = s\<lparr>m_onVersionCheck := callback\<rparr>"

subsection \<open>Control methods\<close>

definition begin_ota :: "begin_env \<Rightarrow> ota \<Rightarrow> bool \<times> ota \<times> event list" where
  "begin_ota e s =
     (if m_isRunning s then (False, s, log s ''[AutoOTA] Already running'')
      else if strlen (m_firmwareURL s) = 0 \<or> strlen (m_versionURL s) = 0 then
        (let (s', t) = setError ''Firmware or version URL not set'' s in (False, s', t))
      else if \<not> WiFi_connected e then
        (let (s', t) = setError ''WiFi not connected'' s in (False, s', t))
      else
        (let t0 = log s ''[AutoOTA] Starting OTA task...'' @ [XTaskCreate]
         in case xTaskCreate_handle e of
              Some h \<Rightarrow>
                (True, s\<lparr>m_taskHandle := Some h, m_isRunning := True\<rparr>,
                 t0 @ log s ''[AutoOTA] Task started successfully'')
            | None \<Rightarrow>
                (let (s', t) = setError ''Failed to create task'' s in (False, s', t0 @ t))))"

definition stop :: "ota \<Rightarrow> ota \<times> event list" where
  "stop s =
     (s\<lparr>m_taskHandle := None, m_isRunning := False\<rparr>,
      (case m_taskHandle s of None \<Rightarrow> [] | Some h \<Rightarrow> [VTaskDelete h]) @
      log s ''[AutoOTA] Task stopped'')"

definition isRunning :: "ota \<Rightarrow> bool" where
  "isRunning s = m_isRunning s"

text \<open>Lines 163 and 164: the assignment, then the log line.\<close>

definition forceCheck :: "ota \<Rightarrow> ota \<times> event list" where
  "forceCheck s =
     (s\<lparr>m_forceCheckFlag := True\<rparr>,
      Store_forceCheckFlag True # log s ''[AutoOTA] Force check requested'')"

text \<open>The getters return a pointer to the array; the caller reads the C string in it.\<close>

definition getCurrentVersion :: "ota \<Rightarrow> string" where
  "getCurrentVersion s = c_str (m_currentVersion s)"

definition getLastCheckTime :: "ota \<Rightarrow> u32" where
  "getLastCheckTime s = m_lastCheckTime s"

definition getLastError :: "ota \<Rightarrow> string" where
  "getLastError s = c_str (m_lastError s)"

subsection \<open>Device hash and rollout gate\<close>

definition getDeviceHash :: "u8 list \<Rightarrow> u32" where
  "getDeviceHash mac = fold (\<lambda>i hash. hash * 31 + ucast (mac ! i)) [0..<6] 0"

text \<open>
  Lines 379 and 381 of \<^verbatim>\<open>shouldUpdateNow\<close>: the percentile of a hash, a
  \<^verbatim>\<open>uint8_t\<close>, and its comparison with the rollout percentage.
\<close>

definition devicePercentile :: "u32 \<Rightarrow> u8" where
  "devicePercentile deviceHash = ucast (deviceHash mod 100)"

definition shouldUpdateNow :: "ota \<Rightarrow> u8 list \<Rightarrow> bool" where
  "shouldUpdateNow s mac = (devicePercentile (getDeviceHash mac) < m_rolloutPercentage s)"

subsection \<open>The update sequence\<close>

text \<open>
  The write loop of \<^verbatim>\<open>performUpdate\<close> (lines 308 to 328).  It runs as long as the
  transport says it is connected and bytes are missing, so it need not end.  The list is
  what the loop reads, one element per evaluation of its condition; \<open>None\<close> says that
  the loop is still running when the list is used up.
\<close>

fun write_loop :: "ota \<Rightarrow> poll list \<Rightarrow> u32 \<Rightarrow> u32 \<Rightarrow> (u32 \<times> event list) option" where
  "write_loop s [] written totalSize = None"
| "write_loop s (p # ps) written totalSize =
     (if http_connected p \<and> written < totalSize then
        (if stream_available p \<noteq> 0 then
           (let bytesToRead = min (stream_available p) 128;
                bytesRead = stream_readBytes p;
                bytesWritten = update_write p;
                written' = written + bytesWritten;
                t = [Stream_readBytes bytesToRead, Update_write bytesRead] @
                    (case m_onUpdateProgress s of
                       Some f \<Rightarrow>
                         (if written' mod 10240 = 0 \<or> written' = totalSize
                          then [Call_OTAProgressCallback f written' totalSize] else [])
                     | None \<Rightarrow> []) @
                    (if 0 \<le> m_statusLED s \<and> written' mod 4096 = 0
                     then [DigitalWrite (word_of_int (m_statusLED s)) (\<not> digitalRead_LED p)] else []) @
                    [Delay_ms 1]
            in case write_loop s ps written' totalSize of
                 None \<Rightarrow> None
               | Some (w, t') \<Rightarrow> Some (w, t @ t'))
         else (case write_loop s ps written totalSize of
                 None \<Rightarrow> None
               | Some (w, t') \<Rightarrow> Some (w, Delay_ms 1 # t')))
      else Some (written, []))"

text \<open>The common end of the failure branches: \<^verbatim>\<open>setError\<close>, then lines 368 and 369.\<close>

definition performUpdate_failed ::
  "string \<Rightarrow> ota \<Rightarrow> event list \<Rightarrow> (bool \<times> ota \<times> event list) option" where
  "performUpdate_failed error s t =
     (let (s', te) = setError error s in Some (False, s', t @ te @ [Http_end FirmwareHTTP]))"

text \<open>The three request headers that both requests add.\<close>

definition cache_busting :: "http_client \<Rightarrow> event list" where
  "cache_busting c =
     [Http_addHeader c ''Cache-Control'' ''no-cache, no-store, must-revalidate'',
      Http_addHeader c ''Pragma'' ''no-cache'',
      Http_addHeader c ''Expires'' ''0'']"

text \<open>
  \<^verbatim>\<open>performUpdate\<close> (lines 274 to 370).  \<^verbatim>\<open>ESP.restart()\<close> is recorded as a call and
  the function goes on to its \<^verbatim>\<open>return true\<close>, as its text does; on the device the call
  does not return.  The result is \<open>None\<close> when the write loop has not ended.  What the
  destructor of the local \<^verbatim>\<open>HTTPClient\<close> does is not recorded.
\<close>

definition performUpdate :: "check_env \<Rightarrow> ota \<Rightarrow> (bool \<times> ota \<times> event list) option" where
  "performUpdate e s =
     (let t0 = log s ''[AutoOTA] Starting firmware download...'' @ blinkLED s 3 100 @
               invoke (m_onUpdateStart s) @
               [Http_begin FirmwareHTTP (c_str (m_firmwareURL s))] @
               cache_busting FirmwareHTTP @ [Http_GET FirmwareHTTP];
          httpCode = firmware_GET e
      in if httpCode = 200 then
           (let contentLength = firmware_getSize e
            in if 0 < sint contentLength then
                 (let t1 = logf s (''[AutoOTA] Firmware size: '' @ dec_int (sint contentLength) @
                                   '' bytes'') @
                           [Update_begin contentLength]
                  in if update_begin e then
                       (case write_loop s (polls e) 0 contentLength of
                          None \<Rightarrow> None
                        | Some (written, tw) \<Rightarrow>
                            (let t2 = log s ''[AutoOTA] Writing firmware to flash...'' @ tw @
                                      (if 0 \<le> m_statusLED s
                                       then [DigitalWrite (word_of_int (m_statusLED s)) False] else []) @
                                      logf s (''[AutoOTA] Wrote: '' @ dec_int (sint written) @
                                              '' bytes'') @
                                      [Update_end]
                             in if update_end e then
                                  (if update_isFinished e then
                                     Some (True, s,
                                           t0 @ t1 @ t2 @
                                           log s ''[AutoOTA] Update successful! Rebooting...'' @
                                           invoke (m_onUpdateComplete s) @ blinkLED s 5 200 @
                                           [Delay_ms 1000, ESP_restart])
                                   else performUpdate_failed ''Update not finished'' s
                                          (t0 @ t1 @ t2))
                                else performUpdate_failed
                                       (take 63 (''Update failed: error '' @
                                                 dec_int (uint (update_getError e))))
                                       s (t0 @ t1 @ t2)))
                     else performUpdate_failed ''Not enough space for OTA'' s (t0 @ t1))
               else performUpdate_failed ''Content length is zero'' s t0)
         else performUpdate_failed
                (take 63 (''Download failed: HTTP '' @ dec_int httpCode)) s t0)"

text \<open>
  \<^verbatim>\<open>checkForUpdate\<close> (lines 226 to 272).  \<^verbatim>\<open>HTTP_CODE_OK\<close> is 200.
\<close>

definition checkForUpdate :: "check_env \<Rightarrow> ota \<Rightarrow> (bool \<times> ota \<times> event list) option" where
  "checkForUpdate e s =
     (let t0 = log s ''[AutoOTA] Checking for firmware update...'' @
               invoke (m_onVersionCheck s) @
               [Http_begin VersionHTTP (c_str (m_versionURL s))] @
               cache_busting VersionHTTP @ [Http_GET VersionHTTP];
          httpCode = version_GET e
      in if httpCode = 200 then
           (let remoteVersion = trim (version_getString e);
                t1 = logf s (''[AutoOTA] Current: '' @ c_str (m_currentVersion s) @
                             '', Remote: '' @ c_str remoteVersion)
            in if String_equals remoteVersion (m_currentVersion s) then
                 Some (True, s,
                       t0 @ t1 @ log s ''[AutoOTA] Firmware is up to date'' @
                       [Http_end VersionHTTP])
               else
                 (let t2 = log s ''[AutoOTA] New version available!''
                  in if m_staggeredRollout s \<and> \<not> shouldUpdateNow s (macAddress e) then
                       Some (True, s,
                             t0 @ t1 @ t2 @
                             logf s (''[AutoOTA] Staggered rollout: Delaying update (device not in '' @
                                     dec_int (uint (m_rolloutPercentage s)) @ ''% group)'') @
                             [Http_end VersionHTTP])
                     else
                       (case performUpdate e s of
                          None \<Rightarrow> None
                        | Some (r, s', t3) \<Rightarrow>
                            Some (r, s', t0 @ t1 @ t2 @ [Http_end VersionHTTP] @ t3))))
         else
           (let (s', te) = setError ''Version check failed'' s
            in Some (False, s',
                     t0 @ logf s (''[AutoOTA] Version check failed: HTTP '' @ dec_int httpCode) @
                     te @ [Http_end VersionHTTP])))"

subsection \<open>The background task\<close>

text \<open>
  Lines 206 to 214 of \<^verbatim>\<open>otaTask\<close>: the retry counter after a check that returned
  \<open>ok\<close>.
\<close>

definition retry_bookkeeping :: "bool \<Rightarrow> ota \<Rightarrow> ota \<times> event list" where
  "retry_bookkeeping ok s =
     (if ok then (s\<lparr>m_retryCount := 0\<rparr>, [])
      else
        (let s' = s\<lparr>m_retryCount := m_retryCount s + 1\<rparr>
         in if m_maxRetries s' \<le> m_retryCount s' then
              (s'\<lparr>m_retryCount := 0\<rparr>,
               logf s' (''[AutoOTA] Max retries reached ('' @ dec_int (uint (m_maxRetries s')) @
                        ''), resetting counter''))
            else (s', [])))"

text \<open>
  Lines 203 to 217: the check, when it is forced or due.  The assignment of line 204
  comes before the call of \<^verbatim>\<open>checkForUpdate\<close> in line 206.
\<close>

definition check_due :: "iter_env \<Rightarrow> ota \<Rightarrow> bool" where
  "check_due e s =
     (m_forceCheckFlag s \<or> m_checkInterval s \<le> millis_before e - m_lastCheckTime s)"

definition otaTask_check :: "iter_env \<Rightarrow> ota \<Rightarrow> (ota \<times> event list) option" where
  "otaTask_check e s =
     (if check_due e s then
        (case checkForUpdate (check e) (s\<lparr>m_forceCheckFlag := False\<rparr>) of
           None \<Rightarrow> None
         | Some (ok, s1, t1) \<Rightarrow>
             (let (s2, t2) = retry_bookkeeping ok s1
              in Some (s2\<lparr>m_lastCheckTime := millis_after e\<rparr>,
                       Store_forceCheckFlag False # t1 @ t2)))
      else Some (s, []))"

text \<open>One iteration of \<^verbatim>\<open>while (true)\<close>, lines 194 to 223.\<close>

definition otaTask_iteration :: "iter_env \<Rightarrow> ota \<Rightarrow> (ota \<times> event list) option" where
  "otaTask_iteration e s =
     (if \<not> wifi_connected e then
        Some (s, log s ''[AutoOTA] WiFi disconnected, waiting...'' @ [VTaskDelay_ms 10000])
      else
        (case otaTask_check e s of
           None \<Rightarrow> None
         | Some (s', t) \<Rightarrow>
             (let nextCheck = m_checkInterval s' + random_jitter e
              in Some (s', t @ [VTaskDelay_ms nextCheck]))))"

text \<open>
  The loop never leaves by itself.  \<open>otaTask_loop es s\<close> is the object and the calls
  made after the iterations that read \<open>es\<close>, in order.
\<close>

fun otaTask_loop :: "iter_env list \<Rightarrow> ota \<Rightarrow> (ota \<times> event list) option" where
  "otaTask_loop [] s = Some (s, [])"
| "otaTask_loop (e # es) s =
     (case otaTask_iteration e s of
        None \<Rightarrow> None
      | Some (s1, t1) \<Rightarrow>
          (case otaTask_loop es s1 of
             None \<Rightarrow> None
           | Some (s2, t2) \<Rightarrow> Some (s2, t1 @ t2)))"

text \<open>
  \<^verbatim>\<open>otaTask\<close>: the random initial delay (the result of \<^verbatim>\<open>getRandomDelay()\<close> is
  \<open>initialDelay\<close>), then the loop.
\<close>

definition otaTask :: "u32 \<Rightarrow> iter_env list \<Rightarrow> ota \<Rightarrow> (ota \<times> event list) option" where
  "otaTask initialDelay es s =
     (let t0 = logf s (''[AutoOTA] Waiting '' @ dec_nat (unat (initialDelay div 1000)) @
                       '' seconds before first check...'') @
               [VTaskDelay_ms initialDelay] @ log s ''[AutoOTA] Starting update monitoring''
      in case otaTask_loop es s of
           None \<Rightarrow> None
         | Some (s', t) \<Rightarrow> Some (s', t0 @ t))"

subsection \<open>Sequences of calls\<close>

datatype config_call =
    SetFirmwareURL string
  | SetVersionURL string
  | SetCurrentVersion string
  | SetCheckInterval u32
  | SetRandomDelay u32 u32
  | SetStaggeredRollout bool u8
  | SetStatusLED int
  | SetMaxRetries u8
  | SetDebugMode bool
  | OnUpdateStart "nat option"
  | OnUpdateProgress "nat option"
  | OnUpdateComplete "nat option"
  | OnUpdateError "nat option"
  | OnVersionCheck "nat option"

fun configure :: "config_call \<Rightarrow> ota \<Rightarrow> ota \<times> event list" where
  "configure (SetFirmwareURL url) s = (setFirmwareURL url s, [])"
| "configure (SetVersionURL url) s = (setVersionURL url s, [])"
| "configure (SetCurrentVersion version) s = (setCurrentVersion version s, [])"
| "configure (SetCheckInterval intervalMs) s = (setCheckInterval intervalMs s, [])"
| "configure (SetRandomDelay minMs maxMs) s = (setRandomDelay minMs maxMs s, [])"
| "configure (SetStaggeredRollout enable percentage) s =
     (setStaggeredRollout enable percentage s, [])"
| "configure (SetStatusLED pin) s = setStatusLED pin s"
| "configure (SetMaxRetries retries) s = (setMaxRetries retries s, [])"
| "configure (SetDebugMode enable) s = (setDebugMode enable s, [])"
| "configure (OnUpdateStart callback) s = (onUpdateStart callback s, [])"
| "configure (OnUpdateProgress callback) s = (onUpdateProgress callback s, [])"
| "configure (OnUpdateComplete callback) s = (onUpdateComplete callback s, [])"
| "configure (OnUpdateError callback) s = (onUpdateError callback s, [])"
| "configure (OnVersionCheck callback) s = (onVersionCheck callback s, [])"

fun configure_all :: "config_call list \<Rightarrow> ota \<Rightarrow> ota" where
  "configure_all [] s = s"
| "configure_all (c # cs) s = configure_all cs (fst (configure c s))"

text \<open>
  Everything that changes the object after its construction: a configuration call, a
  control call, or one iteration of the background task.
\<close>

datatype call =
    Configure config_call
  | Begin begin_env
  | Stop
  | ForceCheck
  | Iteration iter_env

fun exec :: "call \<Rightarrow> ota \<Rightarrow> (ota \<times> event list) option" where
  "exec (Configure c) s = Some (configure c s)"
| "exec (Begin e) s = Some (snd (begin_ota e s))"
| "exec Stop s = Some (stop s)"
| "exec ForceCheck s = Some (forceCheck s)"
| "exec (Iteration e) s = otaTask_iteration e s"

fun run :: "call list \<Rightarrow> ota \<Rightarrow> (ota \<times> event list) option" where
  "run [] s = Some (s, [])"
| "run (c # cs) s =
     (case exec c s of
        None \<Rightarrow> None
      | Some (s1, t1) \<Rightarrow>
          (case run cs s1 of
             None \<Rightarrow> None
           | Some (s2, t2) \<Rightarrow> Some (s2, t1 @ t2)))"

subsection \<open>Reading a list of calls\<close>

text \<open>
  Every run of \<^verbatim>\<open>checkForUpdate\<close> uses the HTTP client of the version request and
  every run of \<^verbatim>\<open>performUpdate\<close> the client of the firmware download, and nothing else
  uses them.
\<close>

fun on_client :: "http_client \<Rightarrow> event \<Rightarrow> bool" where
  "on_client c (Http_begin c' url) = (c = c')"
| "on_client c (Http_addHeader c' k v) = (c = c')"
| "on_client c (Http_GET c') = (c = c')"
| "on_client c (Http_end c') = (c = c')"
| "on_client c ev = False"

definition check_performed :: "event list \<Rightarrow> bool" where
  "check_performed t = list_ex (on_client VersionHTTP) t"

definition performUpdate_invoked :: "event list \<Rightarrow> bool" where
  "performUpdate_invoked t = list_ex (on_client FirmwareHTTP) t"

fun is_error_call :: "event \<Rightarrow> bool" where
  "is_error_call (Call_OTAErrorCallback f message) = True"
| "is_error_call ev = False"

text \<open>
  The calls of a list, each with what \<^verbatim>\<open>_forceCheckFlag\<close> holds when it is made: the
  flag holds \<open>flag\<close> before the first of them and changes at each recorded assignment.
\<close>

fun flag_at_calls :: "bool \<Rightarrow> event list \<Rightarrow> (event \<times> bool) list" where
  "flag_at_calls flag [] = []"
| "flag_at_calls flag (Store_forceCheckFlag b # t) = flag_at_calls b t"
| "flag_at_calls flag (ev # t) = (ev, flag) # flag_at_calls flag t"

text \<open>
  What a failed check leaves behind: a last-error message that is not empty, no other
  change of the object, one call of the registered error callback with this message (no
  call when none is registered), and no restart.
\<close>

definition failure_reported :: "ota \<Rightarrow> ota \<Rightarrow> event list \<Rightarrow> bool" where
  "failure_reported s s' t =
     (getLastError s' \<noteq> [] \<and>
      s' = s\<lparr>m_lastError := m_lastError s'\<rparr> \<and>
      filter is_error_call t =
        (case m_onUpdateError s of
           None \<Rightarrow> []
         | Some f \<Rightarrow> [Call_OTAErrorCallback f (getLastError s')]) \<and>
      ESP_restart \<notin> set t)"

text \<open>The messages of the failure branches of \<^verbatim>\<open>checkForUpdate\<close> and \<^verbatim>\<open>performUpdate\<close>.\<close>

definition failure_messages :: "check_env \<Rightarrow> string list" where
  "failure_messages e =
     [''Version check failed'',
      take 63 (''Download failed: HTTP '' @ dec_int (firmware_GET e)),
      ''Content length is zero'',
      ''Not enough space for OTA'',
      take 63 (''Update failed: error '' @ dec_int (uint (update_getError e))),
      ''Update not finished'']"

text \<open>Every array holds a string that ends inside the array.\<close>

definition strings_terminated :: "ota \<Rightarrow> bool" where
  "strings_terminated s =
     (buffers_sized s \<and>
      strlen (m_firmwareURL s) \<le> 255 \<and> strlen (m_versionURL s) \<le> 255 \<and>
      strlen (m_currentVersion s) \<le> 31 \<and> strlen (m_lastError s) \<le> 127)"

subsection \<open>The retry policy in the words of the specification\<close>

text \<open>
  The outcomes of the spec's \<^verbatim>\<open>check()\<close>, and the counter discipline of its section
  4.5: increment on Failed, reset to 0 on UpToDate, Deferred and Updated; when the
  counter reaches the ceiling, reset it to 0.
\<close>

datatype outcome = UpToDate | Deferred | Updated | Failed

fun RetryPolicy_spec :: "nat \<Rightarrow> nat \<Rightarrow> outcome list \<Rightarrow> nat" where
  "RetryPolicy_spec ceiling c [] = c"
| "RetryPolicy_spec ceiling c (Failed # os) =
     RetryPolicy_spec ceiling (if ceiling \<le> c + 1 then 0 else c + 1) os"
| "RetryPolicy_spec ceiling c (out # os) = RetryPolicy_spec ceiling 0 os"

text \<open>
  What \<^verbatim>\<open>checkForUpdate\<close> returns for an outcome: \<^verbatim>\<open>false\<close> for Failed and
  \<^verbatim>\<open>true\<close> for the other three.
\<close>

fun returned :: "outcome \<Rightarrow> bool" where
  "returned Failed = False"
| "returned out = True"

text \<open>The retry counter of the code over the results of successive checks.\<close>

fun retry_all :: "bool list \<Rightarrow> ota \<Rightarrow> ota" where
  "retry_all [] s = s"
| "retry_all (ok # oks) s = retry_all oks (fst (retry_bookkeeping ok s))"

subsection \<open>Sample inputs\<close>

text \<open>The storage of an object of static duration before its constructor runs.\<close>

definition zero_storage :: ota where
  "zero_storage =
     \<lparr>m_firmwareURL = replicate 256 NUL,
      m_versionURL = replicate 256 NUL,
      m_currentVersion = replicate 32 NUL,
      m_checkInterval = 0,
      m_minRandomDelay = 0,
      m_maxRandomDelay = 0,
      m_staggeredRollout = False,
      m_rolloutPercentage = 0,
      m_statusLED = 0,
      m_maxRetries = 0,
      m_debugMode = False,
      m_isRunning = False,
      m_taskHandle = None,
      m_lastCheckTime = 0,
      m_retryCount = 0,
      m_lastError = replicate 128 NUL,
      m_forceCheckFlag = False,
      m_onUpdateStart = None,
      m_onUpdateProgress = None,
      m_onUpdateComplete = None,
      m_onUpdateError = None,
      m_onVersionCheck = None\<rparr>"

text \<open>
  A configured object: constructed in static storage, with both URLs and the version
  set, everything else at the constructor's defaults.
\<close>

definition sample_ota :: ota where
  "sample_ota =
     setCurrentVersion ''1.0.0''
       (setVersionURL ''http://ota.example/version.txt''
          (setFirmwareURL ''http://ota.example/firmware.bin'' (ESP32_AutoOTA zero_storage)))"

text \<open>
  What a check reads: the status and the body of the version request are the
  arguments.  The device hash of the MAC is 1134521278, so its percentile is 78.  The
  download answers 200 with 1000 bytes announced; the transport delivers 128 bytes and
  disconnects, and \<^verbatim>\<open>Update.end()\<close> fails with error 9.
\<close>

definition sample_check :: "int \<Rightarrow> string \<Rightarrow> check_env" where
  "sample_check code body =
     \<lparr>version_GET = code,
      version_getString = body,
      macAddress = [0x24, 0x6F, 0x28, 0xAA, 0xBB, 0xCC],
      firmware_GET = 200,
      firmware_getSize = 1000,
      update_begin = True,
      polls = [\<lparr>http_connected = True, stream_available = 128, stream_readBytes = 128,
                update_write = 128, digitalRead_LED = False\<rparr>,
               \<lparr>http_connected = False, stream_available = 0, stream_readBytes = 0,
                update_write = 0, digitalRead_LED = False\<rparr>],
      update_end = False,
      update_isFinished = False,
      update_getError = 9\<rparr>"

text \<open>An iteration of the task with WiFi up, at time \<open>now\<close>; the check takes 5 ms.\<close>

definition sample_iteration :: "u32 \<Rightarrow> check_env \<Rightarrow> iter_env" where
  "sample_iteration now e =
     \<lparr>wifi_connected = True,
      millis_before = now,
      millis_after = now + 5,
      random_jitter = 0,
      check = e\<rparr>"

section \<open>C strings in fixed-size arrays\<close>

lemma c_str_no_NUL: "NUL \<notin> set (c_str p)"
  unfolding c_str_def by (induction p) auto

lemma c_str_id: "NUL \<notin> set p \<Longrightarrow> c_str p = p"
  unfolding c_str_def by (induction p) auto

lemma c_str_append_NUL: "NUL \<notin> set p \<Longrightarrow> c_str (p @ NUL # q) = p"
  unfolding c_str_def by (induction p) auto

lemma c_str_append_pad: "NUL \<notin> set p \<Longrightarrow> c_str (p @ replicate k NUL @ NUL # q) = p"
  by (cases k) (simp_all add: c_str_append_NUL)

lemma length_strncpy: "n \<le> length dst \<Longrightarrow> length (strncpy dst src n) = length dst"
  by (simp add: strncpy_def Let_def)

lemma strncpy_terminated:
  assumes "n < length dst"
  shows "c_str ((strncpy dst src n)[n := NUL]) = take n (c_str src)"
proof -
  let ?s = "take n (c_str src)"
  have len: "length (?s @ replicate (n - length ?s) NUL) = n" by simp
  have "(strncpy dst src n)[n := NUL] =
        (?s @ replicate (n - length ?s) NUL) @ (drop n dst)[0 := NUL]"
    unfolding strncpy_def Let_def using len
    by (metis append.assoc list_update_append diff_self_eq_0 less_irrefl)
  moreover obtain q where "(drop n dst)[0 := NUL] = NUL # q"
    using assms by (cases "drop n dst") auto
  ultimately have eq:
    "(strncpy dst src n)[n := NUL] = ?s @ replicate (n - length ?s) NUL @ NUL # q"
    by simp
  have "NUL \<notin> set ?s" using c_str_no_NUL by (metis in_set_takeD)
  then show ?thesis unfolding eq by (rule c_str_append_pad)
qed

section \<open>The device hash and the rollout gate\<close>

lemma unat_devicePercentile: "unat (devicePercentile h) = unat h mod 100"
proof -
  have "unat h mod 100 < 2 ^ 8"
    by (rule less_trans[of _ 100]) simp_all
  then show ?thesis
    unfolding devicePercentile_def
    by (simp add: unsigned_ucast_eq unat_mod take_bit_nat_eq_self)
qed

lemma unat_hash_fold:
  "unat (foldl (\<lambda>h b. h * 31 + ucast b) (w :: u32) (xs :: u8 list)) =
   foldl (\<lambda>h b. (h * 31 + unat b) mod 2 ^ 32) (unat w) xs"
proof (induction xs arbitrary: w)
  case Nil
  then show ?case by simp
next
  case (Cons x xs)
  have "unat x < 2 ^ 32"
    by (rule less_trans[OF unsigned_less]) simp
  then have "unat (w * 31 + ucast x) = (unat w * 31 + unat x) mod 2 ^ 32"
    by (simp add: unat_word_ariths unsigned_ucast_eq take_bit_nat_eq_self mod_simps)
  then show ?case using Cons.IH[of "w * 31 + ucast x"] by simp
qed

lemma getDeviceHash_six:
  "getDeviceHash [b0, b1, b2, b3, b4, b5] =
   foldl (\<lambda>h b. h * 31 + ucast b) 0 [b0, b1, b2, b3, b4, b5]"
  by (simp add: getDeviceHash_def upt_rec)

lemma length_six:
  "length (xs :: 'a list) = 6 \<Longrightarrow> \<exists>a b c d e f. xs = [a, b, c, d, e, f]"
  by (auto simp: length_Suc_conv eval_nat_numeral)

section \<open>Calls made by the update sequence\<close>

lemma blinkLED_events:
  "ev \<in> set (blinkLED s n d) \<Longrightarrow> (\<exists>p b. ev = DigitalWrite p b) \<or> (\<exists>ms. ev = Delay_ms ms)"
  unfolding blinkLED_def by (induction n) (auto split: if_splits)

lemma blinkLED_quiet [simp]:
  "filter is_error_call (blinkLED s n d) = []"
  "ESP_restart \<notin> set (blinkLED s n d)"
  "\<not> list_ex (on_client c) (blinkLED s n d)"
proof -
  have "\<not> is_error_call x \<and> x \<noteq> ESP_restart \<and> \<not> on_client c x"
    if "x \<in> set (blinkLED s n d)" for x
    using blinkLED_events[OF that] by auto
  then show "filter is_error_call (blinkLED s n d) = []"
    and "ESP_restart \<notin> set (blinkLED s n d)"
    and "\<not> list_ex (on_client c) (blinkLED s n d)"
    by (auto simp: filter_empty_conv list_ex_iff)
qed

lemma log_quiet [simp]:
  "filter is_error_call (log s m) = []"
  "ESP_restart \<notin> set (log s m)"
  "\<not> list_ex (on_client c) (log s m)"
  "filter is_error_call (logf s m) = []"
  "ESP_restart \<notin> set (logf s m)"
  "\<not> list_ex (on_client c) (logf s m)"
  "filter is_error_call (invoke cb) = []"
  "ESP_restart \<notin> set (invoke cb)"
  "\<not> list_ex (on_client c) (invoke cb)"
  by (simp_all add: log_def logf_def invoke_def split: option.splits)

lemma cache_busting_quiet [simp]:
  "filter is_error_call (cache_busting c) = []"
  "ESP_restart \<notin> set (cache_busting c)"
  "list_ex (on_client c') (cache_busting c) = (c' = c)"
  by (auto simp add: cache_busting_def)

lemma write_loop_quiet:
  "write_loop s ps w n = Some (w', t) \<Longrightarrow>
     filter is_error_call t = [] \<and> ESP_restart \<notin> set t \<and> \<not> list_ex (on_client c) t"
proof (induction s ps w n arbitrary: w' t rule: write_loop.induct)
  case (1 s written totalSize)
  then show ?case by simp
next
  case (2 s p ps written totalSize)
  show ?case
  proof (cases "http_connected p \<and> written < totalSize")
    case False
    with "2.prems" show ?thesis by auto
  next
    case run: True
    show ?thesis
    proof (cases "stream_available p \<noteq> 0")
      case True
      with run "2.prems" obtain t' where
        r: "write_loop s ps (written + update_write p) totalSize = Some (w', t')"
        and t: "t = [Stream_readBytes (min (stream_available p) 128), Update_write (stream_readBytes p)] @
                    (case m_onUpdateProgress s of
                       Some f \<Rightarrow>
                         (if (written + update_write p) mod 10240 = 0 \<or> (written + update_write p) = totalSize
                          then [Call_OTAProgressCallback f (written + update_write p) totalSize] else [])
                     | None \<Rightarrow> []) @
                    (if 0 \<le> m_statusLED s \<and> (written + update_write p) mod 4096 = 0
                     then [DigitalWrite (word_of_int (m_statusLED s)) (\<not> digitalRead_LED p)] else []) @
                    [Delay_ms 1] @ t'"
        by (auto simp: Let_def split: option.splits)
      from "2.IH"(1)[OF run True refl refl refl refl refl r] show ?thesis
        unfolding t by (auto split: option.splits)
    next
      case False
      with run "2.prems" obtain t' where
        r: "write_loop s ps written totalSize = Some (w', t')" and t: "t = Delay_ms 1 # t'"
        by (auto split: option.splits)
      from "2.IH"(2)[OF run False r] show ?thesis unfolding t by auto
    qed
  qed
qed

lemma write_loop_returns:
  "\<exists>p\<in>set ps. \<not> http_connected p \<Longrightarrow> \<exists>r. write_loop s ps w n = Some r"
proof (induction s ps w n rule: write_loop.induct)
  case (1 s written totalSize)
  then show ?case by simp
next
  case (2 s p ps written totalSize)
  show ?case
  proof (cases "http_connected p \<and> written < totalSize")
    case False
    then show ?thesis by auto
  next
    case run: True
    then have rest: "\<exists>p\<in>set ps. \<not> http_connected p" using "2.prems" by auto
    show ?thesis
    proof (cases "stream_available p \<noteq> 0")
      case True
      from "2.IH"(1)[OF run True refl refl refl refl refl rest] run True show ?thesis
        by (auto simp: Let_def)
    next
      case False
      from "2.IH"(2)[OF run False rest] run False show ?thesis by auto
    qed
  qed
qed


lemma dec_nat_digits: "set (dec_nat n) \<subseteq> set ''0123456789''"
proof (induction n rule: dec_nat.induct)
  case (1 n)
  have d: "''0123456789'' ! k \<in> set ''0123456789''" if "k < 10" for k
    using that by (intro nth_mem) simp
  show ?case
  proof (cases "n < 10")
    case True
    then show ?thesis using d[of n] by (subst dec_nat.simps) simp
  next
    case False
    then show ?thesis using 1 d[of "n mod 10"] by (subst dec_nat.simps) simp
  qed
qed

lemma dec_int_no_NUL: "NUL \<notin> set (dec_int i)"
  using dec_nat_digits[of "nat i"] dec_nat_digits[of "nat (- i)"]
  by (auto simp: dec_int_def)

lemma setError_state:
  "fst (setError m s) = s\<lparr>m_lastError := (strncpy (m_lastError s) m 127)[127 := NUL]\<rparr>"
  by (simp add: setError_def)

lemma getLastError_setError:
  "length (m_lastError s) = 128 \<Longrightarrow> getLastError (fst (setError m s)) = take 127 (c_str m)"
  by (simp add: setError_state getLastError_def strncpy_terminated)

lemma setError_calls:
  "filter is_error_call (snd (setError m s)) =
     (case m_onUpdateError s of None \<Rightarrow> [] | Some f \<Rightarrow> [Call_OTAErrorCallback f (c_str m)])"
  "ESP_restart \<notin> set (snd (setError m s))"
  "\<not> list_ex (on_client c) (snd (setError m s))"
  by (simp_all add: setError_def logf_def split: option.splits)

lemma performUpdate_failed_result:
  assumes len: "length (m_lastError s) = 128"
    and m: "NUL \<notin> set m" "length m \<le> 127" "m \<noteq> []"
    and r: "performUpdate_failed m s t0 = Some (r, s', t)"
    and t0: "filter is_error_call t0 = []" "ESP_restart \<notin> set t0"
            "\<not> list_ex (on_client VersionHTTP) t0"
  shows "\<not> r \<and> getLastError s' = m \<and> failure_reported s s' t \<and>
         performUpdate_invoked t \<and> \<not> check_performed t"
proof -
  have c: "c_str m = m" using m(1) by (rule c_str_id)
  from r have 1: "\<not> r" and 2: "s' = fst (setError m s)"
    and 3: "t = t0 @ snd (setError m s) @ [Http_end FirmwareHTTP]"
    by (auto simp: performUpdate_failed_def split: prod.splits)
  have 4: "getLastError s' = m"
    unfolding 2 using getLastError_setError[OF len, of m] m(2) by (simp add: c)
  have 5: "s' = s\<lparr>m_lastError := m_lastError s'\<rparr>"
    unfolding 2 by (simp add: setError_state)
  have 6: "filter is_error_call t =
           (case m_onUpdateError s of None \<Rightarrow> [] | Some f \<Rightarrow> [Call_OTAErrorCallback f m])"
    using t0(1) setError_calls(1)[of m s] by (simp add: 3 c split: option.splits)
  have 7: "ESP_restart \<notin> set t"
    using t0(2) setError_calls(2)[of m s] by (simp add: 3)
  have 8: "performUpdate_invoked t" "\<not> check_performed t"
    using t0(3) setError_calls(3)[of VersionHTTP m s]
    by (simp_all add: 3 performUpdate_invoked_def check_performed_def)
  show ?thesis
    using 1 4 5 6 7 8 m(3) unfolding failure_reported_def by (simp split: option.splits)
qed

lemma failure_message_facts:
  "NUL \<notin> set (take 63 (''Download failed: HTTP '' @ dec_int i))"
  "length (take 63 (''Download failed: HTTP '' @ dec_int i)) \<le> 127"
  "take 63 (''Download failed: HTTP '' @ dec_int i) \<noteq> []"
  "NUL \<notin> set (take 63 (''Update failed: error '' @ dec_int j))"
  "length (take 63 (''Update failed: error '' @ dec_int j)) \<le> 127"
  "take 63 (''Update failed: error '' @ dec_int j) \<noteq> []"
  using dec_int_no_NUL[of i] dec_int_no_NUL[of j] by (auto dest!: in_set_takeD)

lemma performUpdate_result:
  assumes len: "length (m_lastError s) = 128"
    and r: "performUpdate e s = Some (r, s', t)"
  shows "performUpdate_invoked t \<and> \<not> check_performed t \<and>
         (if r then s' = s \<and> ESP_restart \<in> set t \<and> filter is_error_call t = []
          else failure_reported s s' t \<and> getLastError s' \<in> set (tl (failure_messages e)))"
proof -
  have fail: "\<not> r \<and> getLastError s' = m \<and> failure_reported s s' t \<and>
         performUpdate_invoked t \<and> \<not> check_performed t"
    if "NUL \<notin> set m" "length m \<le> 127" "m \<noteq> []"
      "performUpdate_failed m s t0 = Some (r, s', t)"
      "filter is_error_call t0 = []" "ESP_restart \<notin> set t0"
      "\<not> list_ex (on_client VersionHTTP) t0" for m t0
    using performUpdate_failed_result[OF len that] .
  show ?thesis
  proof (cases "firmware_GET e = 200")
    case False
    with r have "\<exists>t0. performUpdate_failed
        (take 63 (''Download failed: HTTP '' @ dec_int (firmware_GET e))) s t0 = Some (r, s', t) \<and>
        filter is_error_call t0 = [] \<and> ESP_restart \<notin> set t0 \<and>
        \<not> list_ex (on_client VersionHTTP) t0"
      apply (simp add: performUpdate_def Let_def)
      apply (rule exI, rule conjI, assumption)
      apply simp
      done
    then show ?thesis
      using fail[OF failure_message_facts(1,2,3)] by (auto simp: failure_messages_def)
  next
    case ok: True
    show ?thesis
    proof (cases "0 < sint (firmware_getSize e)")
      case False
      with ok r have "\<exists>t0. performUpdate_failed ''Content length is zero'' s t0 = Some (r, s', t) \<and>
          filter is_error_call t0 = [] \<and> ESP_restart \<notin> set t0 \<and>
          \<not> list_ex (on_client VersionHTTP) t0"
        apply (simp add: performUpdate_def Let_def)
      apply (rule exI, rule conjI, assumption)
      apply simp
      done
      then show ?thesis
        using fail[of "''Content length is zero''"] by (auto simp: failure_messages_def)
    next
      case size: True
      show ?thesis
      proof (cases "update_begin e")
        case False
        with ok size r have "\<exists>t0. performUpdate_failed ''Not enough space for OTA'' s t0 =
            Some (r, s', t) \<and>
            filter is_error_call t0 = [] \<and> ESP_restart \<notin> set t0 \<and>
            \<not> list_ex (on_client VersionHTTP) t0"
          apply (simp add: performUpdate_def Let_def)
      apply (rule exI, rule conjI, assumption)
      apply simp
      done
        then show ?thesis
          using fail[of "''Not enough space for OTA''"] by (auto simp: failure_messages_def)
      next
        case space: True
        from ok size space r obtain written tw where
          w: "write_loop s (polls e) 0 (firmware_getSize e) = Some (written, tw)"
          by (auto simp: performUpdate_def Let_def split: option.splits)
        note q = write_loop_quiet[OF w]
        show ?thesis
        proof (cases "update_end e")
          case False
          with ok size space w r q have "\<exists>t0. performUpdate_failed
              (take 63 (''Update failed: error '' @ dec_int (uint (update_getError e)))) s t0 =
              Some (r, s', t) \<and>
              filter is_error_call t0 = [] \<and> ESP_restart \<notin> set t0 \<and>
              \<not> list_ex (on_client VersionHTTP) t0"
            apply (simp add: performUpdate_def Let_def)
      apply (rule exI, rule conjI, assumption)
      apply simp
      done
          then show ?thesis
            using fail[OF failure_message_facts(4,5,6)] by (auto simp: failure_messages_def)
        next
          case ended: True
          show ?thesis
          proof (cases "update_isFinished e")
            case False
            with ok size space w ended r q have "\<exists>t0. performUpdate_failed
                ''Update not finished'' s t0 = Some (r, s', t) \<and>
                filter is_error_call t0 = [] \<and> ESP_restart \<notin> set t0 \<and>
                \<not> list_ex (on_client VersionHTTP) t0"
              apply (simp add: performUpdate_def Let_def)
      apply (rule exI, rule conjI, assumption)
      apply simp
      done
            then show ?thesis
              using fail[of "''Update not finished''"] by (auto simp: failure_messages_def)
          next
            case True
            with ok size space w ended r q show ?thesis
              by (auto simp: performUpdate_def Let_def performUpdate_invoked_def
                  check_performed_def split: if_splits)
          qed
        qed
      qed
    qed
  qed
qed


lemma checkForUpdate_version_failed:
  assumes "version_GET e \<noteq> 200"
  shows "checkForUpdate e s =
         Some (False, fst (setError ''Version check failed'' s),
               log s ''[AutoOTA] Checking for firmware update...'' @
               invoke (m_onVersionCheck s) @
               [Http_begin VersionHTTP (c_str (m_versionURL s))] @
               cache_busting VersionHTTP @ [Http_GET VersionHTTP] @
               logf s (''[AutoOTA] Version check failed: HTTP '' @ dec_int (version_GET e)) @
               snd (setError ''Version check failed'' s) @ [Http_end VersionHTTP])"
  using assms by (simp add: checkForUpdate_def Let_def split: prod.splits)

lemma checkForUpdate_up_to_date:
  assumes "version_GET e = 200"
    and "String_equals (trim (version_getString e)) (m_currentVersion s)"
  shows "checkForUpdate e s =
         Some (True, s,
               log s ''[AutoOTA] Checking for firmware update...'' @
               invoke (m_onVersionCheck s) @
               [Http_begin VersionHTTP (c_str (m_versionURL s))] @
               cache_busting VersionHTTP @ [Http_GET VersionHTTP] @
               logf s (''[AutoOTA] Current: '' @ c_str (m_currentVersion s) @
                       '', Remote: '' @ c_str (trim (version_getString e))) @
               log s ''[AutoOTA] Firmware is up to date'' @ [Http_end VersionHTTP])"
  using assms by (simp add: checkForUpdate_def Let_def)

lemma checkForUpdate_deferred:
  assumes "version_GET e = 200"
    and "\<not> String_equals (trim (version_getString e)) (m_currentVersion s)"
    and "m_staggeredRollout s" and "\<not> shouldUpdateNow s (macAddress e)"
  shows "checkForUpdate e s =
         Some (True, s,
               log s ''[AutoOTA] Checking for firmware update...'' @
               invoke (m_onVersionCheck s) @
               [Http_begin VersionHTTP (c_str (m_versionURL s))] @
               cache_busting VersionHTTP @ [Http_GET VersionHTTP] @
               logf s (''[AutoOTA] Current: '' @ c_str (m_currentVersion s) @
                       '', Remote: '' @ c_str (trim (version_getString e))) @
               log s ''[AutoOTA] New version available!'' @
               logf s (''[AutoOTA] Staggered rollout: Delaying update (device not in '' @
                       dec_int (uint (m_rolloutPercentage s)) @ ''% group)'') @
               [Http_end VersionHTTP])"
  using assms by (simp add: checkForUpdate_def Let_def)

lemma checkForUpdate_update:
  assumes "version_GET e = 200"
    and "\<not> String_equals (trim (version_getString e)) (m_currentVersion s)"
    and "\<not> (m_staggeredRollout s \<and> \<not> shouldUpdateNow s (macAddress e))"
  shows "checkForUpdate e s =
         (case performUpdate e s of
            None \<Rightarrow> None
          | Some (r, s', t3) \<Rightarrow>
              Some (r, s',
                    log s ''[AutoOTA] Checking for firmware update...'' @
                    invoke (m_onVersionCheck s) @
                    [Http_begin VersionHTTP (c_str (m_versionURL s))] @
                    cache_busting VersionHTTP @ [Http_GET VersionHTTP] @
                    logf s (''[AutoOTA] Current: '' @ c_str (m_currentVersion s) @
                            '', Remote: '' @ c_str (trim (version_getString e))) @
                    log s ''[AutoOTA] New version available!'' @
                    [Http_end VersionHTTP] @ t3))"
  using assms by (auto simp add: checkForUpdate_def Let_def split: option.splits)

lemma checkForUpdate_result:
  assumes len: "length (m_lastError s) = 128"
    and r: "checkForUpdate e s = Some (r, s', t)"
  shows "check_performed t \<and>
         (if r then s' = s \<and> filter is_error_call t = []
          else failure_reported s s' t \<and> getLastError s' \<in> set (failure_messages e)) \<and>
         (ESP_restart \<in> set t \<longrightarrow> r \<and> performUpdate_invoked t)"
proof (cases "version_GET e = 200")
  case False
  have m: "getLastError (fst (setError ''Version check failed'' s)) = ''Version check failed''"
    using getLastError_setError[OF len, of "''Version check failed''"]
    by (simp add: c_str_def)
  from r show ?thesis
    unfolding checkForUpdate_version_failed[OF False]
    using m setError_calls[where m="''Version check failed''" and s=s]
    by (auto simp: check_performed_def failure_reported_def failure_messages_def
        setError_state c_str_def split: option.splits)
next
  case ok: True
  show ?thesis
  proof (cases "String_equals (trim (version_getString e)) (m_currentVersion s)")
    case True
    from r show ?thesis
      unfolding checkForUpdate_up_to_date[OF ok True]
      by (auto simp: check_performed_def)
  next
    case differs: False
    show ?thesis
    proof (cases "m_staggeredRollout s \<and> \<not> shouldUpdateNow s (macAddress e)")
      case True
      then have g: "m_staggeredRollout s" "\<not> shouldUpdateNow s (macAddress e)" by simp_all
      from r show ?thesis
        unfolding checkForUpdate_deferred[OF ok differs g]
        by (auto simp: check_performed_def)
    next
      case False
      from r obtain t3 where p: "performUpdate e s = Some (r, s', t3)"
        and t: "t = log s ''[AutoOTA] Checking for firmware update...'' @
                    invoke (m_onVersionCheck s) @
                    [Http_begin VersionHTTP (c_str (m_versionURL s))] @
                    cache_busting VersionHTTP @ [Http_GET VersionHTTP] @
                    logf s (''[AutoOTA] Current: '' @ c_str (m_currentVersion s) @
                            '', Remote: '' @ c_str (trim (version_getString e))) @
                    log s ''[AutoOTA] New version available!'' @
                    [Http_end VersionHTTP] @ t3"
        unfolding checkForUpdate_update[OF ok differs False]
        by (auto split: option.splits)
      note u = performUpdate_result[OF len p]
      have inv: "performUpdate_invoked t"
        using u by (simp add: t performUpdate_invoked_def)
      have chk: "check_performed t" by (simp add: t check_performed_def)
      have flt: "filter is_error_call t = filter is_error_call t3" by (simp add: t)
      have rst: "(ESP_restart \<in> set t) = (ESP_restart \<in> set t3)" by (simp add: t)
      show ?thesis
      proof (cases r)
        case True
        with u inv chk flt show ?thesis by simp
      next
        case False
        with u have f: "failure_reported s s' t3"
          and g: "getLastError s' \<in> set (tl (failure_messages e))" by simp_all
        from f have "failure_reported s s' t"
          unfolding failure_reported_def flt rst .
        moreover from g have "getLastError s' \<in> set (failure_messages e)"
          by (simp add: failure_messages_def)
        moreover from f have "ESP_restart \<notin> set t"
          unfolding failure_reported_def rst by simp
        ultimately show ?thesis using False chk by simp
      qed
    qed
  qed
qed

lemma performUpdate_visible:
  "performUpdate e s = Some (r, s', t) \<Longrightarrow> performUpdate_invoked t"
  by (auto simp: performUpdate_def performUpdate_failed_def performUpdate_invoked_def Let_def
      split: if_splits option.splits prod.splits)

lemma set_trim: "set (trim b) \<subseteq> set b"
proof -
  have "set (trim b) \<subseteq> set (dropWhile isspace b)"
    unfolding trim_def using set_dropWhileD[of _ isspace "rev (dropWhile isspace b)"] by auto
  also have "\<dots> \<subseteq> set b" using set_dropWhileD[of _ isspace b] by auto
  finally show ?thesis .
qed

lemma String_equals_text:
  "NUL \<notin> set str \<Longrightarrow> String_equals str buf = (str = c_str buf)"
  by (simp add: String_equals_def c_str_id)

lemma buffers_sized_ctor: "buffers_sized raw \<Longrightarrow> buffers_sized (ESP32_AutoOTA raw)"
  by (simp add: buffers_sized_def ESP32_AutoOTA_def strcpy_def strlen_def c_str_def)

lemma buffers_sized_zero: "buffers_sized zero_storage"
  by (simp add: buffers_sized_def zero_storage_def)

lemma buffers_sized_setters:
  assumes "buffers_sized s"
  shows "buffers_sized (setFirmwareURL url s)" "buffers_sized (setVersionURL url s)"
    "buffers_sized (setCurrentVersion v s)" "buffers_sized (fst (setError m s))"
  using assms
  by (simp_all add: buffers_sized_def setFirmwareURL_def setVersionURL_def setCurrentVersion_def
      setError_def length_strncpy)

lemma get_after_set:
  assumes "buffers_sized s"
  shows "c_str (m_firmwareURL (setFirmwareURL url s)) = take 255 (c_str url)"
    "c_str (m_versionURL (setVersionURL url s)) = take 255 (c_str url)"
    "getCurrentVersion (setCurrentVersion v s) = take 31 (c_str v)"
    "getLastError (fst (setError m s)) = take 127 (c_str m)"
  using assms
  by (simp_all add: buffers_sized_def setFirmwareURL_def setVersionURL_def setCurrentVersion_def
      setError_def getCurrentVersion_def getLastError_def strncpy_terminated)

lemma buffers_sized_sample: "buffers_sized sample_ota"
  unfolding sample_ota_def
  by (intro buffers_sized_setters buffers_sized_ctor buffers_sized_zero)

lemma getCurrentVersion_sample: "getCurrentVersion sample_ota = ''1.0.0''"
  unfolding sample_ota_def
  by (subst get_after_set(3))
     (simp_all add: c_str_def buffers_sized_setters buffers_sized_ctor buffers_sized_zero)

section \<open>The background task\<close>

lemma retry_bookkeeping_count:
  "unat (m_retryCount (fst (retry_bookkeeping ok s))) =
     (if ok then 0
      else if unat (m_maxRetries s) \<le> unat (m_retryCount s) + 1 then 0
      else unat (m_retryCount s) + 1)"
proof (cases ok)
  case True
  then show ?thesis by (simp add: retry_bookkeeping_def)
next
  case False
  have u: "unat (m_retryCount s + 1) = (unat (m_retryCount s) + 1) mod 256"
    by (simp add: unat_word_ariths)
  have b: "unat (m_retryCount s) < 256" "unat (m_maxRetries s) < 256"
    using unsigned_less[of "m_retryCount s", where 'a=nat]
      unsigned_less[of "m_maxRetries s", where 'a=nat] by simp_all
  show ?thesis
  proof (cases "unat (m_retryCount s) = 255")
    case True
    with False u b show ?thesis
      by (simp add: retry_bookkeeping_def Let_def word_le_nat_alt)
  next
    case n: False
    with b have "unat (m_retryCount s + 1) = unat (m_retryCount s) + 1"
      unfolding u by simp
    with False show ?thesis
      by (simp add: retry_bookkeeping_def Let_def word_le_nat_alt)
  qed
qed

lemma retry_bookkeeping_word:
  "m_retryCount (fst (retry_bookkeeping ok s)) =
     (if ok then 0
      else if m_maxRetries s \<le> m_retryCount s + 1 then 0 else m_retryCount s + 1)"
  by (simp add: retry_bookkeeping_def Let_def)

lemma retry_bookkeeping_frame:
  "fst (retry_bookkeeping ok s) = s\<lparr>m_retryCount := m_retryCount (fst (retry_bookkeeping ok s))\<rparr>"
  by (simp add: retry_bookkeeping_def Let_def)

lemma retry_bookkeeping_quiet:
  "filter is_error_call (snd (retry_bookkeeping ok s)) = []"
  "ESP_restart \<notin> set (snd (retry_bookkeeping ok s))"
  "\<not> list_ex (on_client c) (snd (retry_bookkeeping ok s))"
  by (simp_all add: retry_bookkeeping_def Let_def)

lemma otaTask_iteration_checked:
  assumes "wifi_connected i" and "check_due i s"
    and "checkForUpdate (check i) (s\<lparr>m_forceCheckFlag := False\<rparr>) = Some (ok, s1, t1)"
  shows "otaTask_iteration i s =
         Some ((fst (retry_bookkeeping ok s1))\<lparr>m_lastCheckTime := millis_after i\<rparr>,
               Store_forceCheckFlag False # t1 @ snd (retry_bookkeeping ok s1) @
               [VTaskDelay_ms (m_checkInterval s1 + random_jitter i)])"
  using assms
  by (simp add: otaTask_iteration_def otaTask_check_def split: prod.splits)
     (metis retry_bookkeeping_frame fst_conv ota.select_convs(4) ota.surjective ota.update_convs(15))

lemma otaTask_iteration_stuck:
  assumes "wifi_connected i" and "check_due i s"
    and "checkForUpdate (check i) (s\<lparr>m_forceCheckFlag := False\<rparr>) = None"
  shows "otaTask_iteration i s = None"
  using assms by (simp add: otaTask_iteration_def otaTask_check_def)

lemma otaTask_iteration_idle:
  assumes "wifi_connected i" and "\<not> check_due i s"
  shows "otaTask_iteration i s = Some (s, [VTaskDelay_ms (m_checkInterval s + random_jitter i)])"
  using assms by (simp add: otaTask_iteration_def otaTask_check_def)

lemma otaTask_iteration_offline:
  assumes "\<not> wifi_connected i"
  shows "otaTask_iteration i s =
         Some (s, log s ''[AutoOTA] WiFi disconnected, waiting...'' @ [VTaskDelay_ms 10000])"
  using assms by (simp add: otaTask_iteration_def)

lemma performUpdate_failed_frame:
  "performUpdate_failed m s t0 = Some (r, s', t) \<Longrightarrow> s' = fst (setError m s)"
  by (auto simp: performUpdate_failed_def split: prod.splits)

lemma performUpdate_frame:
  "performUpdate e s = Some (r, s', t) \<Longrightarrow> s' = s \<or> (\<exists>m. s' = fst (setError m s))"
  by (auto simp: performUpdate_def Let_def split: if_splits option.splits
      dest!: performUpdate_failed_frame)

lemma checkForUpdate_frame:
  assumes "checkForUpdate e s = Some (r, s', t)"
  shows "s' = s \<or> (\<exists>m. s' = fst (setError m s))"
proof (cases "version_GET e = 200")
  case False
  from assms show ?thesis
    unfolding checkForUpdate_version_failed[OF False] by auto
next
  case True
  with assms performUpdate_frame[of e s] show ?thesis
    by (auto simp: checkForUpdate_def Let_def split: if_splits option.splits)
qed

lemma checkForUpdate_visible:
  "checkForUpdate e s = Some (r, s', t) \<Longrightarrow> check_performed t"
  by (auto simp: checkForUpdate_def check_performed_def Let_def
      split: if_splits option.splits prod.splits)

lemma sample_not_eligible:
  "\<not> shouldUpdateNow (setStaggeredRollout True 50 sample_ota)
       [0x24, 0x6F, 0x28, 0xAA, 0xBB, 0xCC]"
  by (simp add: shouldUpdateNow_def word_less_nat_alt unat_devicePercentile
      getDeviceHash_def upt_rec setStaggeredRollout_def constrain_def)

lemma getCurrentVersion_frame [simp]:
  "getCurrentVersion (setStaggeredRollout en p s) = getCurrentVersion s"
  "getCurrentVersion (setMaxRetries n s) = getCurrentVersion s"
  "getCurrentVersion (onUpdateError cb s) = getCurrentVersion s"
  by (simp_all add: getCurrentVersion_def setStaggeredRollout_def setMaxRetries_def
      onUpdateError_def)

lemma sample_defaults:
  "m_checkInterval sample_ota = 300000" "m_lastCheckTime sample_ota = 0"
  "m_maxRetries sample_ota = 3" "m_retryCount sample_ota = 0"
  "\<not> m_forceCheckFlag sample_ota" "m_onUpdateError sample_ota = None"
  "\<not> m_isRunning sample_ota" "m_debugMode sample_ota"
  by (simp_all add: sample_ota_def setCurrentVersion_def setVersionURL_def setFirmwareURL_def
      ESP32_AutoOTA_def)

lemma retry_bookkeeping_maxRetries:
  "m_maxRetries (fst (retry_bookkeeping ok s)) = m_maxRetries s"
  by (simp add: retry_bookkeeping_def Let_def)

lemma retry_all_spec:
  "unat (m_retryCount (retry_all (map returned os) s)) =
   RetryPolicy_spec (unat (m_maxRetries s)) (unat (m_retryCount s)) os"
proof (induction os arbitrary: s)
  case Nil
  then show ?case by simp
next
  case (Cons out os)
  show ?case
    using Cons.IH[of "fst (retry_bookkeeping (returned out) s)"]
    by (cases out) (simp_all add: retry_bookkeeping_count retry_bookkeeping_maxRetries)
qed

lemma setError_scalars:
  "m_retryCount (fst (setError m s)) = m_retryCount s"
  "m_maxRetries (fst (setError m s)) = m_maxRetries s"
  "m_checkInterval (fst (setError m s)) = m_checkInterval s"
  "m_forceCheckFlag (fst (setError m s)) = m_forceCheckFlag s"
  "m_lastCheckTime (fst (setError m s)) = m_lastCheckTime s"
  by (simp_all add: setError_state)

lemma checkForUpdate_scalars:
  assumes "checkForUpdate e s = Some (r, s', t)"
  shows "m_retryCount s' = m_retryCount s" "m_maxRetries s' = m_maxRetries s"
    "m_checkInterval s' = m_checkInterval s" "m_forceCheckFlag s' = m_forceCheckFlag s"
    "m_lastCheckTime s' = m_lastCheckTime s"
  using checkForUpdate_frame[OF assms] by (auto simp: setError_scalars)

lemma otaTask_iteration_retry:
  assumes i: "wifi_connected i" "check_due i s"
    and c: "checkForUpdate (check i) (s\<lparr>m_forceCheckFlag := False\<rparr>) = Some (ok, s1, t1)"
  shows "\<exists>s' t. otaTask_iteration i s = Some (s', t) \<and> check_performed t \<and>
           m_retryCount s' =
             (if ok then 0
              else if m_maxRetries s \<le> m_retryCount s + 1 then 0 else m_retryCount s + 1) \<and>
           unat (m_retryCount s') =
             (if ok then 0
              else if unat (m_maxRetries s) \<le> unat (m_retryCount s) + 1 then 0
              else unat (m_retryCount s) + 1) \<and>
           m_maxRetries s' = m_maxRetries s \<and> m_checkInterval s' = m_checkInterval s \<and>
           m_lastCheckTime s' = millis_after i \<and> \<not> m_forceCheckFlag s'"
proof -
  note f = checkForUpdate_scalars[OF c]
  have v: "check_performed t1" using c by (rule checkForUpdate_visible)
  have w: "m_retryCount (fst (retry_bookkeeping ok s1)) =
           (if ok then 0
              else if m_maxRetries s \<le> m_retryCount s + 1 then 0 else m_retryCount s + 1)"
    using f by (simp add: retry_bookkeeping_word)
  have n: "unat (m_retryCount (fst (retry_bookkeeping ok s1))) =
           (if ok then 0
              else if unat (m_maxRetries s) \<le> unat (m_retryCount s) + 1 then 0
              else unat (m_retryCount s) + 1)"
    using f by (simp add: retry_bookkeeping_count)
  have o: "m_maxRetries (fst (retry_bookkeeping ok s1)) = m_maxRetries s"
    "m_checkInterval (fst (retry_bookkeeping ok s1)) = m_checkInterval s"
    "\<not> m_forceCheckFlag (fst (retry_bookkeeping ok s1))"
    using f by (simp_all add: retry_bookkeeping_def Let_def)
  show ?thesis
    unfolding otaTask_iteration_checked[OF i c]
    using v w n o by (simp add: check_performed_def)
qed

lemma otaTask_iteration_version_failed:
  assumes "wifi_connected i" "check_due i s" "version_GET (check i) \<noteq> 200"
  shows "\<exists>s' t. otaTask_iteration i s = Some (s', t) \<and> check_performed t \<and>
           m_retryCount s' =
             (if m_maxRetries s \<le> m_retryCount s + 1 then 0 else m_retryCount s + 1) \<and>
           m_maxRetries s' = m_maxRetries s \<and> m_checkInterval s' = m_checkInterval s \<and>
           m_lastCheckTime s' = millis_after i \<and> \<not> m_forceCheckFlag s'"
  using otaTask_iteration_retry[OF assms(1,2) checkForUpdate_version_failed[OF assms(3)]]
  by auto

lemma three_failures:
  assumes s: "m_retryCount s = 0" "m_maxRetries s = 3"
    and w: "wifi_connected i1" "wifi_connected i2" "wifi_connected i3"
    and v: "version_GET (check i1) \<noteq> 200" "version_GET (check i2) \<noteq> 200"
           "version_GET (check i3) \<noteq> 200"
    and d: "check_due i1 s" "m_checkInterval s \<le> millis_before i2 - millis_after i1"
           "m_checkInterval s \<le> millis_before i3 - millis_after i2"
  shows "\<exists>s1 t1 s2 t2 s3 t3.
           otaTask_loop [i1] s = Some (s1, t1) \<and> m_retryCount s1 = 1 \<and>
           otaTask_loop [i1, i2] s = Some (s2, t2) \<and> m_retryCount s2 = 2 \<and>
           otaTask_loop [i1, i2, i3] s = Some (s3, t3) \<and> m_retryCount s3 = 0"
proof -
  from otaTask_iteration_version_failed[OF w(1) d(1) v(1)] obtain s1 t1 where
    1: "otaTask_iteration i1 s = Some (s1, t1)"
    and c1: "m_retryCount s1 =
             (if m_maxRetries s \<le> m_retryCount s + 1 then 0 else m_retryCount s + 1)"
    and f1: "m_maxRetries s1 = m_maxRetries s" "m_checkInterval s1 = m_checkInterval s"
            "m_lastCheckTime s1 = millis_after i1"
    by blast
  have r1: "m_retryCount s1 = 1" unfolding c1 s by (simp add: word_le_nat_alt)
  have d2: "check_due i2 s1" using d(2) f1 by (simp add: check_due_def)
  from otaTask_iteration_version_failed[OF w(2) d2 v(2)] obtain s2 t2 where
    2: "otaTask_iteration i2 s1 = Some (s2, t2)"
    and c2: "m_retryCount s2 =
             (if m_maxRetries s1 \<le> m_retryCount s1 + 1 then 0 else m_retryCount s1 + 1)"
    and f2: "m_maxRetries s2 = m_maxRetries s1" "m_checkInterval s2 = m_checkInterval s1"
            "m_lastCheckTime s2 = millis_after i2"
    by blast
  have r2: "m_retryCount s2 = 2" unfolding c2 r1 f1 s by (simp add: word_le_nat_alt)
  have d3: "check_due i3 s2" using d(3) f1 f2 by (simp add: check_due_def)
  from otaTask_iteration_version_failed[OF w(3) d3 v(3)] obtain s3 t3 where
    3: "otaTask_iteration i3 s2 = Some (s3, t3)"
    and c3: "m_retryCount s3 =
             (if m_maxRetries s2 \<le> m_retryCount s2 + 1 then 0 else m_retryCount s2 + 1)"
    by blast
  have r3: "m_retryCount s3 = 0" unfolding c3 r2 f2 f1 s by (simp add: word_le_nat_alt)
  show ?thesis using 1 2 3 r1 r2 r3 by simp
qed

lemma sample_iteration_fields:
  "wifi_connected (sample_iteration now e)" "millis_before (sample_iteration now e) = now"
  "millis_after (sample_iteration now e) = now + 5" "check (sample_iteration now e) = e"
  "random_jitter (sample_iteration now e) = 0"
  by (simp_all add: sample_iteration_def)

lemma sample_check_fields:
  "version_GET (sample_check code body) = code"
  "version_getString (sample_check code body) = body"
  "macAddress (sample_check code body) = [0x24, 0x6F, 0x28, 0xAA, 0xBB, 0xCC]"
  "firmware_GET (sample_check code body) = 200"
  "firmware_getSize (sample_check code body) = 1000"
  "update_begin (sample_check code body)"
  "\<exists>p\<in>set (polls (sample_check code body)). \<not> http_connected p"
  "\<not> update_end (sample_check code body)"
  "\<not> update_isFinished (sample_check code body)"
  "update_getError (sample_check code body) = 9"
  by (simp_all add: sample_check_def)

lemma sint_1000: "0 < sint (1000 :: u32)"
  by simp

section \<open>Failure branches\<close>

lemma buffers_sized_lastError: "buffers_sized s \<Longrightarrow> length (m_lastError s) = 128"
  by (simp add: buffers_sized_def)

lemma buffers_sized_scalar_updates [simp]:
  "buffers_sized (s\<lparr>m_forceCheckFlag := b\<rparr>) = buffers_sized s"
  "buffers_sized (s\<lparr>m_retryCount := c\<rparr>) = buffers_sized s"
  "buffers_sized (s\<lparr>m_lastCheckTime := l\<rparr>) = buffers_sized s"
  by (simp_all add: buffers_sized_def)

lemma performUpdate_failed_returns:
  assumes b: "buffers_sized s" and m: "NUL \<notin> set m" "length m \<le> 127"
    and p: "\<exists>t0. performUpdate e s = performUpdate_failed m s t0"
  shows "\<exists>s' t. performUpdate e s = Some (False, s', t) \<and> getLastError s' = m"
proof -
  from p obtain t0 where "performUpdate e s = performUpdate_failed m s t0" by blast
  then have "performUpdate e s =
             Some (False, fst (setError m s), t0 @ snd (setError m s) @ [Http_end FirmwareHTTP])"
    by (simp add: performUpdate_failed_def split: prod.splits)
  moreover have "getLastError (fst (setError m s)) = m"
    using get_after_set(4)[OF b, of m] m by (simp add: c_str_id)
  ultimately show ?thesis by blast
qed

lemma performUpdate_branches:
  assumes b: "buffers_sized s"
  shows "firmware_GET e \<noteq> 200 \<Longrightarrow>
           \<exists>s' t. performUpdate e s = Some (False, s', t) \<and>
                  getLastError s' = take 63 (''Download failed: HTTP '' @ dec_int (firmware_GET e))"
    and "firmware_GET e = 200 \<Longrightarrow> sint (firmware_getSize e) \<le> 0 \<Longrightarrow>
           \<exists>s' t. performUpdate e s = Some (False, s', t) \<and>
                  getLastError s' = ''Content length is zero''"
    and "firmware_GET e = 200 \<Longrightarrow> 0 < sint (firmware_getSize e) \<Longrightarrow> \<not> update_begin e \<Longrightarrow>
           \<exists>s' t. performUpdate e s = Some (False, s', t) \<and>
                  getLastError s' = ''Not enough space for OTA''"
    and "firmware_GET e = 200 \<Longrightarrow> 0 < sint (firmware_getSize e) \<Longrightarrow> update_begin e \<Longrightarrow>
         \<exists>p\<in>set (polls e). \<not> http_connected p \<Longrightarrow> \<not> update_end e \<Longrightarrow>
           \<exists>s' t. performUpdate e s = Some (False, s', t) \<and>
                  getLastError s' =
                    take 63 (''Update failed: error '' @ dec_int (uint (update_getError e)))"
    and "firmware_GET e = 200 \<Longrightarrow> 0 < sint (firmware_getSize e) \<Longrightarrow> update_begin e \<Longrightarrow>
         \<exists>p\<in>set (polls e). \<not> http_connected p \<Longrightarrow> update_end e \<Longrightarrow>
         \<not> update_isFinished e \<Longrightarrow>
           \<exists>s' t. performUpdate e s = Some (False, s', t) \<and>
                  getLastError s' = ''Update not finished''"
proof -
  show "\<exists>s' t. performUpdate e s = Some (False, s', t) \<and>
                  getLastError s' = take 63 (''Download failed: HTTP '' @ dec_int (firmware_GET e))"
    if "firmware_GET e \<noteq> 200"
  proof (rule performUpdate_failed_returns[OF b failure_message_facts(1,2)])
    show "\<exists>t0. performUpdate e s =
            performUpdate_failed (take 63 (''Download failed: HTTP '' @ dec_int (firmware_GET e)))
              s t0"
      using that by (simp add: performUpdate_def Let_def) blast
  qed
  show "\<exists>s' t. performUpdate e s = Some (False, s', t) \<and>
                  getLastError s' = ''Content length is zero''"
    if "firmware_GET e = 200" "sint (firmware_getSize e) \<le> 0"
  proof (rule performUpdate_failed_returns[OF b])
    show "\<exists>t0. performUpdate e s = performUpdate_failed ''Content length is zero'' s t0"
      using that by (simp add: performUpdate_def Let_def) blast
  qed simp_all
  show "\<exists>s' t. performUpdate e s = Some (False, s', t) \<and>
                  getLastError s' = ''Not enough space for OTA''"
    if "firmware_GET e = 200" "0 < sint (firmware_getSize e)" "\<not> update_begin e"
  proof (rule performUpdate_failed_returns[OF b])
    show "\<exists>t0. performUpdate e s = performUpdate_failed ''Not enough space for OTA'' s t0"
      using that by (simp add: performUpdate_def Let_def) blast
  qed simp_all
  show "\<exists>s' t. performUpdate e s = Some (False, s', t) \<and>
                  getLastError s' =
                    take 63 (''Update failed: error '' @ dec_int (uint (update_getError e)))"
    if "firmware_GET e = 200" "0 < sint (firmware_getSize e)" "update_begin e"
      "\<exists>p\<in>set (polls e). \<not> http_connected p" "\<not> update_end e"
  proof (rule performUpdate_failed_returns[OF b failure_message_facts(4,5)])
    from write_loop_returns[OF that(4), of s 0 "firmware_getSize e"] obtain w tw where
      "write_loop s (polls e) 0 (firmware_getSize e) = Some (w, tw)" by auto
    then show "\<exists>t0. performUpdate e s =
            performUpdate_failed
              (take 63 (''Update failed: error '' @ dec_int (uint (update_getError e)))) s t0"
      using that by (simp add: performUpdate_def Let_def) blast
  qed
  show "\<exists>s' t. performUpdate e s = Some (False, s', t) \<and>
                  getLastError s' = ''Update not finished''"
    if "firmware_GET e = 200" "0 < sint (firmware_getSize e)" "update_begin e"
      "\<exists>p\<in>set (polls e). \<not> http_connected p" "update_end e" "\<not> update_isFinished e"
  proof (rule performUpdate_failed_returns[OF b])
    from write_loop_returns[OF that(4), of s 0 "firmware_getSize e"] obtain w tw where
      "write_loop s (polls e) 0 (firmware_getSize e) = Some (w, tw)" by auto
    then show "\<exists>t0. performUpdate e s = performUpdate_failed ''Update not finished'' s t0"
      using that by (simp add: performUpdate_def Let_def) blast
  qed simp_all
qed

lemma checkForUpdate_version_failed_reported:
  assumes b: "buffers_sized s" and v: "version_GET e \<noteq> 200"
  shows "\<exists>s' t. checkForUpdate e s = Some (False, s', t) \<and>
           getLastError s' = ''Version check failed'' \<and> failure_reported s s' t \<and>
           buffers_sized s'"
proof -
  let ?s = "fst (setError ''Version check failed'' s)"
  have g: "getLastError ?s = ''Version check failed''"
    using get_after_set(4)[OF b, of "''Version check failed''"] by (simp add: c_str_def)
  obtain t where c: "checkForUpdate e s = Some (False, ?s, t)"
    using checkForUpdate_version_failed[OF v] by blast
  from checkForUpdate_result[OF buffers_sized_lastError[OF b] c]
  have "failure_reported s ?s t" by simp
  then show ?thesis using c g buffers_sized_setters(4)[OF b] by blast
qed

lemma retry_bookkeeping_others:
  "m_lastError (fst (retry_bookkeeping ok s)) = m_lastError s"
  "m_onUpdateError (fst (retry_bookkeeping ok s)) = m_onUpdateError s"
  "m_checkInterval (fst (retry_bookkeeping ok s)) = m_checkInterval s"
  "buffers_sized (fst (retry_bookkeeping ok s)) = buffers_sized s"
  by (simp_all add: retry_bookkeeping_def Let_def buffers_sized_def)

lemma otaTask_iteration_version_failed_full:
  assumes b: "buffers_sized s" and w: "wifi_connected i" and d: "check_due i s"
    and v: "version_GET (check i) \<noteq> 200"
  shows "\<exists>s' t. otaTask_iteration i s = Some (s', t) \<and> buffers_sized s' \<and>
           getLastError s' = ''Version check failed'' \<and>
           filter is_error_call t =
             (case m_onUpdateError s of
                None \<Rightarrow> []
              | Some f \<Rightarrow> [Call_OTAErrorCallback f ''Version check failed'']) \<and>
           ESP_restart \<notin> set t \<and>
           m_onUpdateError s' = m_onUpdateError s \<and>
           m_retryCount s' =
             (if m_maxRetries s \<le> m_retryCount s + 1 then 0 else m_retryCount s + 1) \<and>
           m_maxRetries s' = m_maxRetries s \<and> m_checkInterval s' = m_checkInterval s \<and>
           m_lastCheckTime s' = millis_after i"
proof -
  let ?z = "s\<lparr>m_forceCheckFlag := False\<rparr>"
  have bz: "buffers_sized ?z" using b by simp
  from checkForUpdate_version_failed_reported[OF bz v] obtain s1 t1 where
    c: "checkForUpdate (check i) ?z = Some (False, s1, t1)"
    and g: "getLastError s1 = ''Version check failed''"
    and f: "failure_reported ?z s1 t1" and b1: "buffers_sized s1"
    by blast
  note sc = checkForUpdate_scalars[OF c]
  from f have fr: "s1 = ?z\<lparr>m_lastError := m_lastError s1\<rparr>"
    and fl: "filter is_error_call t1 =
             (case m_onUpdateError s of
                None \<Rightarrow> []
              | Some f \<Rightarrow> [Call_OTAErrorCallback f ''Version check failed''])"
    and nr: "ESP_restart \<notin> set t1"
    by (simp_all add: failure_reported_def g split: option.splits)
  have cb: "m_onUpdateError s1 = m_onUpdateError s"
    by (subst fr) simp
  let ?s' = "(fst (retry_bookkeeping False s1))\<lparr>m_lastCheckTime := millis_after i\<rparr>"
  have "buffers_sized ?s'" using b1 by (simp add: retry_bookkeeping_others)
  moreover have "getLastError ?s' = ''Version check failed''"
    using g by (simp add: getLastError_def retry_bookkeeping_others)
  moreover have "m_onUpdateError ?s' = m_onUpdateError s"
    using cb by (simp add: retry_bookkeeping_others)
  moreover have "m_retryCount ?s' =
             (if m_maxRetries s \<le> m_retryCount s + 1 then 0 else m_retryCount s + 1)"
    using sc by (simp add: retry_bookkeeping_word)
  moreover have "m_maxRetries ?s' = m_maxRetries s" "m_checkInterval ?s' = m_checkInterval s"
    "m_lastCheckTime ?s' = millis_after i"
    using sc by (simp_all add: retry_bookkeeping_others retry_bookkeeping_maxRetries)
  moreover have "filter is_error_call
                   (Store_forceCheckFlag False # t1 @ snd (retry_bookkeeping False s1) @
                    [VTaskDelay_ms (m_checkInterval s1 + random_jitter i)]) =
             (case m_onUpdateError s of
                None \<Rightarrow> []
              | Some f \<Rightarrow> [Call_OTAErrorCallback f ''Version check failed''])"
    using fl by (simp add: retry_bookkeeping_quiet)
  moreover have "ESP_restart \<notin> set (Store_forceCheckFlag False # t1 @
                    snd (retry_bookkeeping False s1) @
                    [VTaskDelay_ms (m_checkInterval s1 + random_jitter i)])"
    using nr by (simp add: retry_bookkeeping_quiet)
  ultimately show ?thesis
    unfolding otaTask_iteration_checked[OF w d c] by blast
qed

lemma sample_registered:
  "buffers_sized (onUpdateError cb sample_ota)"
  "m_onUpdateError (onUpdateError cb sample_ota) = cb"
  "m_retryCount (onUpdateError cb sample_ota) = 0"
  "m_maxRetries (onUpdateError cb sample_ota) = 3"
  "m_checkInterval (onUpdateError cb sample_ota) = 300000"
  "m_lastCheckTime (onUpdateError cb sample_ota) = 0"
  using buffers_sized_sample
  by (simp_all add: onUpdateError_def buffers_sized_def sample_defaults)

section \<open>Starting the task\<close>

lemma c_str_clear: "c_str (buf[0 := NUL]) = []"
  by (cases buf) (simp_all add: c_str_def)

lemma setError_control:
  "m_isRunning (fst (setError m s)) = m_isRunning s"
  "m_taskHandle (fst (setError m s)) = m_taskHandle s"
  "XTaskCreate \<notin> set (snd (setError m s))"
  by (simp_all add: setError_def logf_def split: option.splits)

lemma begin_ota_cases:
  "m_isRunning s \<Longrightarrow> begin_ota e s = (False, s, log s ''[AutoOTA] Already running'')"
  "\<not> m_isRunning s \<Longrightarrow> strlen (m_firmwareURL s) = 0 \<or> strlen (m_versionURL s) = 0 \<Longrightarrow>
     begin_ota e s =
       (False, fst (setError ''Firmware or version URL not set'' s),
        snd (setError ''Firmware or version URL not set'' s))"
  "\<not> m_isRunning s \<Longrightarrow> strlen (m_firmwareURL s) \<noteq> 0 \<Longrightarrow> strlen (m_versionURL s) \<noteq> 0 \<Longrightarrow>
   \<not> WiFi_connected e \<Longrightarrow>
     begin_ota e s =
       (False, fst (setError ''WiFi not connected'' s), snd (setError ''WiFi not connected'' s))"
  "\<not> m_isRunning s \<Longrightarrow> strlen (m_firmwareURL s) \<noteq> 0 \<Longrightarrow> strlen (m_versionURL s) \<noteq> 0 \<Longrightarrow>
   WiFi_connected e \<Longrightarrow> xTaskCreate_handle e = None \<Longrightarrow>
     begin_ota e s =
       (False, fst (setError ''Failed to create task'' s),
        log s ''[AutoOTA] Starting OTA task...'' @ [XTaskCreate] @
        snd (setError ''Failed to create task'' s))"
  "\<not> m_isRunning s \<Longrightarrow> strlen (m_firmwareURL s) \<noteq> 0 \<Longrightarrow> strlen (m_versionURL s) \<noteq> 0 \<Longrightarrow>
   WiFi_connected e \<Longrightarrow> xTaskCreate_handle e = Some h \<Longrightarrow>
     begin_ota e s =
       (True, s\<lparr>m_taskHandle := Some h, m_isRunning := True\<rparr>,
        log s ''[AutoOTA] Starting OTA task...'' @ [XTaskCreate] @
        log s ''[AutoOTA] Task started successfully'')"
  by (simp_all add: begin_ota_def Let_def split: prod.splits)

lemma sample_urls:
  "c_str (m_firmwareURL sample_ota) = ''http://ota.example/firmware.bin''"
  "c_str (m_versionURL sample_ota) = ''http://ota.example/version.txt''"
proof -
  have z: "buffers_sized (ESP32_AutoOTA zero_storage)"
    by (intro buffers_sized_ctor buffers_sized_zero)
  have "m_firmwareURL sample_ota =
        m_firmwareURL (setFirmwareURL ''http://ota.example/firmware.bin''
                         (ESP32_AutoOTA zero_storage))"
    by (simp add: sample_ota_def setCurrentVersion_def setVersionURL_def)
  then show "c_str (m_firmwareURL sample_ota) = ''http://ota.example/firmware.bin''"
    using get_after_set(1)[OF z, of "''http://ota.example/firmware.bin''"]
    by (simp add: c_str_def)
  have "m_versionURL sample_ota =
        m_versionURL (setVersionURL ''http://ota.example/version.txt''
           (setFirmwareURL ''http://ota.example/firmware.bin'' (ESP32_AutoOTA zero_storage)))"
    by (simp add: sample_ota_def setCurrentVersion_def)
  then show "c_str (m_versionURL sample_ota) = ''http://ota.example/version.txt''"
    using get_after_set(2)[OF buffers_sized_setters(1)[OF z],
        of "''http://ota.example/version.txt''" "''http://ota.example/firmware.bin''"]
    by (simp add: c_str_def)
qed

section \<open>Configuration\<close>

lemma constrain_nat: "constrain (int n) 0 100 = int (min n 100)"
  unfolding constrain_def min_def by auto

lemma unat_clamped:
  "unat (word_of_int (constrain (uint (p :: u8)) 0 100) :: u8) = min (unat p) 100"
proof -
  define n where "n = unat p"
  have n: "n < 256" unfolding n_def using unsigned_less[of p, where 'a=nat] by simp
  have u: "uint p = int n" unfolding n_def by (rule uint_nat)
  have "unat (word_of_int (int (min n 100)) :: u8) = min n 100 mod 2 ^ 8"
    using unat_of_nat[of "min n 100", where 'a=8] by simp
  also have "\<dots> = min n 100" using n by simp
  finally show ?thesis unfolding u constrain_nat n_def[symmetric] .
qed

lemma configure_percentage:
  "unat (m_rolloutPercentage s) \<le> 100 \<Longrightarrow>
   unat (m_rolloutPercentage (fst (configure c s))) \<le> 100"
  by (cases c)
     (simp_all add: setFirmwareURL_def setVersionURL_def setCurrentVersion_def
        setCheckInterval_def setRandomDelay_def setStaggeredRollout_def setStatusLED_def
        setMaxRetries_def setDebugMode_def onUpdateStart_def onUpdateProgress_def
        onUpdateComplete_def onUpdateError_def onVersionCheck_def unat_clamped)

lemma configure_all_percentage:
  "unat (m_rolloutPercentage s) \<le> 100 \<Longrightarrow>
   unat (m_rolloutPercentage (configure_all cs s)) \<le> 100"
  by (induction cs arbitrary: s) (simp_all add: configure_percentage)

lemma configure_delays:
  "\<forall>a b. c \<noteq> SetRandomDelay a b \<Longrightarrow>
   m_minRandomDelay (fst (configure c s)) = m_minRandomDelay s \<and>
   m_maxRandomDelay (fst (configure c s)) = m_maxRandomDelay s"
  by (cases c)
     (simp_all add: setFirmwareURL_def setVersionURL_def setCurrentVersion_def
        setCheckInterval_def setStaggeredRollout_def setStatusLED_def
        setMaxRetries_def setDebugMode_def onUpdateStart_def onUpdateProgress_def
        onUpdateComplete_def onUpdateError_def onVersionCheck_def)

section \<open>Bounded strings\<close>

lemma unterminated_full: "length (c_str b) < length b \<Longrightarrow> NUL \<in> set b"
  by (rule ccontr) (simp add: c_str_id)

lemma strings_terminated_scalars [simp]:
  "strings_terminated (s\<lparr>m_forceCheckFlag := b\<rparr>) = strings_terminated s"
  "strings_terminated (s\<lparr>m_retryCount := c\<rparr>) = strings_terminated s"
  "strings_terminated (s\<lparr>m_lastCheckTime := l\<rparr>) = strings_terminated s"
  "strings_terminated (s\<lparr>m_taskHandle := h, m_isRunning := r\<rparr>) = strings_terminated s"
  by (simp_all add: strings_terminated_def buffers_sized_def)

lemma strings_terminated_ctor:
  assumes "buffers_sized raw"
  shows "strings_terminated (ESP32_AutoOTA raw)"
proof -
  have "c_str (strcpy (m_currentVersion raw) ''0.0.0'') = ''0.0.0''"
    unfolding strcpy_def by (subst c_str_append_NUL) (simp_all add: c_str_def)
  then show ?thesis
    using buffers_sized_ctor[OF assms]
    by (simp add: strings_terminated_def strlen_def ESP32_AutoOTA_def c_str_clear)
qed

lemma strings_terminated_setters:
  assumes "strings_terminated s"
  shows "strings_terminated (setFirmwareURL url s)" "strings_terminated (setVersionURL url s)"
    "strings_terminated (setCurrentVersion v s)" "strings_terminated (fst (setError m s))"
proof -
  from assms have b: "buffers_sized s" by (simp add: strings_terminated_def)
  note g = get_after_set[OF b] and k = buffers_sized_setters[OF b]
  show "strings_terminated (setFirmwareURL url s)"
    using assms g(1)[of url] k(1)[of url]
    by (simp add: strings_terminated_def strlen_def) (simp add: setFirmwareURL_def)
  show "strings_terminated (setVersionURL url s)"
    using assms g(2)[of url] k(2)[of url]
    by (simp add: strings_terminated_def strlen_def) (simp add: setVersionURL_def)
  show "strings_terminated (setCurrentVersion v s)"
    using assms g(3)[of v] k(3)[of v]
    by (simp add: strings_terminated_def strlen_def getCurrentVersion_def)
       (simp add: setCurrentVersion_def)
  show "strings_terminated (fst (setError m s))"
    using assms g(4)[of m] k(4)[of m]
    by (simp add: strings_terminated_def strlen_def getLastError_def)
       (simp add: setError_state)
qed

lemma strings_terminated_configure:
  assumes "strings_terminated s"
  shows "strings_terminated (fst (configure c s))"
proof (cases c)
  case (SetFirmwareURL x)
  then show ?thesis using strings_terminated_setters(1)[OF assms] by simp
next
  case (SetVersionURL x)
  then show ?thesis using strings_terminated_setters(2)[OF assms] by simp
next
  case (SetCurrentVersion x)
  then show ?thesis using strings_terminated_setters(3)[OF assms] by simp
qed (use assms in \<open>simp_all add: strings_terminated_def buffers_sized_def setCheckInterval_def
        setRandomDelay_def setStaggeredRollout_def setStatusLED_def
        setMaxRetries_def setDebugMode_def onUpdateStart_def onUpdateProgress_def
        onUpdateComplete_def onUpdateError_def onVersionCheck_def\<close>)

lemma strings_terminated_begin:
  assumes "strings_terminated s"
  shows "strings_terminated (fst (snd (begin_ota e s)))"
  using assms strings_terminated_setters(4)[OF assms]
  by (auto simp: begin_ota_def Let_def case_prod_beta split: option.splits)

lemma strings_terminated_iteration:
  assumes t: "strings_terminated s" and i: "otaTask_iteration i s = Some (s', tr)"
  shows "strings_terminated s'"
proof (cases "wifi_connected i \<and> check_due i s")
  case False
  with i have "s' = s"
    by (auto simp: otaTask_iteration_def otaTask_check_def split: if_splits)
  with t show ?thesis by simp
next
  case True
  then have w: "wifi_connected i" and d: "check_due i s" by simp_all
  let ?z = "s\<lparr>m_forceCheckFlag := False\<rparr>"
  from i w d obtain ok s1 t1 where c: "checkForUpdate (check i) ?z = Some (ok, s1, t1)"
    by (cases "checkForUpdate (check i) ?z") (auto simp: otaTask_iteration_stuck)
  have tz: "strings_terminated ?z" using t by simp
  have t1: "strings_terminated s1"
    using checkForUpdate_frame[OF c] tz strings_terminated_setters(4)[OF tz] by auto
  have "strings_terminated (fst (retry_bookkeeping ok s1))"
    by (subst retry_bookkeeping_frame) (simp add: t1)
  then show ?thesis
    using i unfolding otaTask_iteration_checked[OF w d c] by auto
qed

lemma strings_terminated_exec:
  assumes "strings_terminated s" and "exec c s = Some (s', t)"
  shows "strings_terminated s'"
proof (cases c)
  case (Configure x)
  with assms strings_terminated_configure[of s x] show ?thesis by auto
next
  case (Begin x)
  with assms strings_terminated_begin[of s x] show ?thesis by auto
next
  case Stop
  with assms show ?thesis by (auto simp: stop_def)
next
  case ForceCheck
  with assms show ?thesis by (auto simp: forceCheck_def)
next
  case (Iteration x)
  with assms strings_terminated_iteration[of s x s' t] show ?thesis by simp
qed

lemma strings_terminated_run:
  "strings_terminated s \<Longrightarrow> run cs s = Some (s', t) \<Longrightarrow> strings_terminated s'"
proof (induction cs arbitrary: s t)
  case Nil
  then show ?case by simp
next
  case (Cons c cs)
  from Cons.prems(2) obtain s1 t1 t2 where e: "exec c s = Some (s1, t1)"
    and r: "run cs s1 = Some (s', t2)"
    by (auto split: option.splits)
  from Cons.IH[OF strings_terminated_exec[OF Cons.prems(1) e] r] show ?case .
qed

lemma nth_terminator:
  "n < length dst \<Longrightarrow> (strncpy dst src n)[n := NUL] ! n = NUL \<and>
                        length ((strncpy dst src n)[n := NUL]) = length dst"
  by (simp add: length_strncpy)

section \<open>Assignments to the force-check flag\<close>

lemma blinkLED_no_store [simp]: "Store_forceCheckFlag b \<notin> set (blinkLED s n d)"
  using blinkLED_events[of "Store_forceCheckFlag b" s n d] by auto

lemma log_no_store [simp]:
  "Store_forceCheckFlag b \<notin> set (log s m)"
  "Store_forceCheckFlag b \<notin> set (logf s m)"
  "Store_forceCheckFlag b \<notin> set (invoke cb)"
  "Store_forceCheckFlag b \<notin> set (cache_busting c)"
  "Store_forceCheckFlag b \<notin> set (snd (setError m s))"
  by (simp_all add: log_def logf_def invoke_def cache_busting_def setError_def
      split: option.splits)

lemma write_loop_no_store:
  "write_loop s ps w n = Some (w', t) \<Longrightarrow> Store_forceCheckFlag b \<notin> set t"
proof (induction s ps w n arbitrary: w' t rule: write_loop.induct)
  case (1 s written totalSize)
  then show ?case by simp
next
  case (2 s p ps written totalSize)
  show ?case
  proof (cases "http_connected p \<and> written < totalSize")
    case False
    with "2.prems" show ?thesis by auto
  next
    case run: True
    show ?thesis
    proof (cases "stream_available p \<noteq> 0")
      case True
      with run "2.prems" obtain t' t0 where
        r: "write_loop s ps (written + update_write p) totalSize = Some (w', t')"
        and t: "t = t0 @ t'" and t0: "Store_forceCheckFlag b \<notin> set t0"
        by (auto simp: Let_def split: option.splits)
      from "2.IH"(1)[OF run True refl refl refl refl refl r] show ?thesis
        unfolding t using t0 by simp
    next
      case False
      with run "2.prems" obtain t' where
        r: "write_loop s ps written totalSize = Some (w', t')" and t: "t = Delay_ms 1 # t'"
        by (auto split: option.splits)
      from "2.IH"(2)[OF run False r] show ?thesis unfolding t by auto
    qed
  qed
qed

lemma performUpdate_no_store:
  "performUpdate e s = Some (r, s', t) \<Longrightarrow> Store_forceCheckFlag b \<notin> set t"
  by (auto simp: performUpdate_def performUpdate_failed_def Let_def case_prod_beta
      split: if_splits option.splits dest: write_loop_no_store)

lemma checkForUpdate_no_store:
  "checkForUpdate e s = Some (r, s', t) \<Longrightarrow> Store_forceCheckFlag b \<notin> set t"
  by (auto simp: checkForUpdate_def Let_def case_prod_beta
      split: if_splits option.splits dest: performUpdate_no_store)

lemma retry_bookkeeping_no_store:
  "Store_forceCheckFlag b \<notin> set (snd (retry_bookkeeping ok s))"
  by (simp add: retry_bookkeeping_def Let_def)

lemma flag_at_calls_no_store:
  "(\<And>b. Store_forceCheckFlag b \<notin> set t) \<Longrightarrow> flag_at_calls flag t = map (\<lambda>ev. (ev, flag)) t"
proof (induction t)
  case Nil
  then show ?case by simp
next
  case (Cons ev t)
  then show ?case by (cases ev) auto
qed

section \<open>The claims\<close>

subsection \<open>The rollout gate\<close>

text \<open>
  C1.  For every 32-bit hash \<open>h\<close> and every percentage \<open>p\<close> (any \<^verbatim>\<open>uint8_t\<close>, so
  in particular every \<open>p\<close> from 0 to 100) the gate of \<^verbatim>\<open>shouldUpdateNow\<close> decides
  \<open>h mod 100 < p\<close>; with percentage 0 no device is eligible and with percentage 100
  every device is.  The decision of \<^verbatim>\<open>shouldUpdateNow\<close> is this function of the
  device hash and the configured percentage, and of nothing else.
\<close>

theorem rollout_gate:
  "(devicePercentile h < p) = (unat h mod 100 < unat p) \<and>
   \<not> devicePercentile h < 0 \<and>
   devicePercentile h < 100 \<and>
   shouldUpdateNow s mac = (unat (getDeviceHash mac) mod 100 < unat (m_rolloutPercentage s)) \<and>
   \<not> shouldUpdateNow (s\<lparr>m_rolloutPercentage := 0\<rparr>) mac \<and>
   shouldUpdateNow (s\<lparr>m_rolloutPercentage := 100\<rparr>) mac"
  by (simp add: shouldUpdateNow_def word_less_nat_alt unat_devicePercentile)

subsection \<open>The retry counter\<close>

text \<open>
  C2.  An iteration of the task that runs a check leaves the retry counter at 0 when the
  check returned \<^verbatim>\<open>true\<close> (UpToDate, Deferred, Updated), and otherwise at the counter
  plus 1, or at 0 when the counter plus 1 reaches \<^verbatim>\<open>maxRetries\<close>; the check is run
  whatever the counter is, so the task keeps checking after the reset.  Over any sequence
  of outcomes the counter of the code is the counter of the spec's retry policy.  With
  \<^verbatim>\<open>maxRetries = 3\<close> and the counter at 0, three iterations whose version request
  fails leave the counter at 1, at 2 and at 0.
\<close>

theorem retry_counter:
  "(\<forall>(i :: iter_env) s ok s1 t1.
      wifi_connected i \<and> check_due i s \<and>
      checkForUpdate (check i) (s\<lparr>m_forceCheckFlag := False\<rparr>) = Some (ok, s1, t1) \<longrightarrow>
      (\<exists>s' t. otaTask_iteration i s = Some (s', t) \<and> check_performed t \<and>
              m_maxRetries s' = m_maxRetries s \<and>
              unat (m_retryCount s') =
                (if ok then 0
                 else if unat (m_maxRetries s) \<le> unat (m_retryCount s) + 1 then 0
                 else unat (m_retryCount s) + 1))) \<and>
   (\<forall>os s. unat (m_retryCount (retry_all (map returned os) s)) =
            RetryPolicy_spec (unat (m_maxRetries s)) (unat (m_retryCount s)) os) \<and>
   (\<forall>s (i1 :: iter_env) (i2 :: iter_env) (i3 :: iter_env).
      m_retryCount s = 0 \<and> m_maxRetries s = 3 \<and>
      wifi_connected i1 \<and> wifi_connected i2 \<and> wifi_connected i3 \<and>
      version_GET (check i1) \<noteq> 200 \<and> version_GET (check i2) \<noteq> 200 \<and>
      version_GET (check i3) \<noteq> 200 \<and>
      check_due i1 s \<and> m_checkInterval s \<le> millis_before i2 - millis_after i1 \<and>
      m_checkInterval s \<le> millis_before i3 - millis_after i2 \<longrightarrow>
      (\<exists>s1 t1 s2 t2 s3 t3.
           otaTask_loop [i1] s = Some (s1, t1) \<and> m_retryCount s1 = 1 \<and>
           otaTask_loop [i1, i2] s = Some (s2, t2) \<and> m_retryCount s2 = 2 \<and>
           otaTask_loop [i1, i2, i3] s = Some (s3, t3) \<and> m_retryCount s3 = 0))"
proof (intro conjI allI impI)
  fix i :: iter_env and s ok s1 t1
  assume "wifi_connected i \<and> check_due i s \<and>
      checkForUpdate (check i) (s\<lparr>m_forceCheckFlag := False\<rparr>) = Some (ok, s1, t1)"
  then have a: "wifi_connected i" "check_due i s"
    "checkForUpdate (check i) (s\<lparr>m_forceCheckFlag := False\<rparr>) = Some (ok, s1, t1)"
    by simp_all
  from otaTask_iteration_retry[OF a]
  show "\<exists>s' t. otaTask_iteration i s = Some (s', t) \<and> check_performed t \<and>
              m_maxRetries s' = m_maxRetries s \<and>
              unat (m_retryCount s') =
                (if ok then 0
                 else if unat (m_maxRetries s) \<le> unat (m_retryCount s) + 1 then 0
                 else unat (m_retryCount s) + 1)"
    by blast
next
  fix os s
  show "unat (m_retryCount (retry_all (map returned os) s)) =
            RetryPolicy_spec (unat (m_maxRetries s)) (unat (m_retryCount s)) os"
    by (rule retry_all_spec)
next
  fix s and i1 :: iter_env and i2 :: iter_env and i3 :: iter_env
  assume "m_retryCount s = 0 \<and> m_maxRetries s = 3 \<and>
      wifi_connected i1 \<and> wifi_connected i2 \<and> wifi_connected i3 \<and>
      version_GET (check i1) \<noteq> 200 \<and> version_GET (check i2) \<noteq> 200 \<and>
      version_GET (check i3) \<noteq> 200 \<and>
      check_due i1 s \<and> m_checkInterval s \<le> millis_before i2 - millis_after i1 \<and>
      m_checkInterval s \<le> millis_before i3 - millis_after i2"
  then show "\<exists>s1 t1 s2 t2 s3 t3.
           otaTask_loop [i1] s = Some (s1, t1) \<and> m_retryCount s1 = 1 \<and>
           otaTask_loop [i1, i2] s = Some (s2, t2) \<and> m_retryCount s2 = 2 \<and>
           otaTask_loop [i1, i2, i3] s = Some (s3, t3) \<and> m_retryCount s3 = 0"
    using three_failures[of s i1 i2 i3] by blast
qed

theorem retry_counter_witness:
  "wifi_connected (sample_iteration 300000 (sample_check 404 [])) \<and>
   wifi_connected (sample_iteration 600005 (sample_check 404 [])) \<and>
   wifi_connected (sample_iteration 900010 (sample_check 404 [])) \<and>
   check_due (sample_iteration 300000 (sample_check 404 [])) sample_ota \<and>
   version_GET (check (sample_iteration 300000 (sample_check 404 []))) \<noteq> 200 \<and>
   version_GET (check (sample_iteration 600005 (sample_check 404 []))) \<noteq> 200 \<and>
   version_GET (check (sample_iteration 900010 (sample_check 404 []))) \<noteq> 200 \<and>
   m_retryCount sample_ota = 0 \<and> m_maxRetries sample_ota = 3 \<and>
   m_checkInterval sample_ota \<le>
     millis_before (sample_iteration 600005 (sample_check 404 [])) -
     millis_after (sample_iteration 300000 (sample_check 404 [])) \<and>
   m_checkInterval sample_ota \<le>
     millis_before (sample_iteration 900010 (sample_check 404 [])) -
     millis_after (sample_iteration 600005 (sample_check 404 [])) \<and>
   (\<exists>s1 t1. checkForUpdate (check (sample_iteration 300000 (sample_check 404 [])))
               (sample_ota\<lparr>m_forceCheckFlag := False\<rparr>) = Some (False, s1, t1)) \<and>
   (\<exists>s' t. otaTask_iteration (sample_iteration 300000 (sample_check 404 [])) sample_ota =
             Some (s', t) \<and> check_performed t \<and> unat (m_retryCount s') = 1) \<and>
   (\<exists>s1 t1 s2 t2 s3 t3.
      otaTask_loop [sample_iteration 300000 (sample_check 404 [])] sample_ota = Some (s1, t1) \<and>
      m_retryCount s1 = 1 \<and>
      otaTask_loop [sample_iteration 300000 (sample_check 404 []),
                    sample_iteration 600005 (sample_check 404 [])] sample_ota = Some (s2, t2) \<and>
      m_retryCount s2 = 2 \<and>
      otaTask_loop [sample_iteration 300000 (sample_check 404 []),
                    sample_iteration 600005 (sample_check 404 []),
                    sample_iteration 900010 (sample_check 404 [])] sample_ota = Some (s3, t3) \<and>
      m_retryCount s3 = 0)"
proof -
  let ?i1 = "sample_iteration 300000 (sample_check 404 [])"
  let ?i2 = "sample_iteration 600005 (sample_check 404 [])"
  let ?i3 = "sample_iteration 900010 (sample_check 404 [])"
  have w: "wifi_connected ?i1" "wifi_connected ?i2" "wifi_connected ?i3"
    by (simp_all add: sample_iteration_fields)
  have d: "check_due ?i1 sample_ota"
    by (simp add: check_due_def sample_iteration_fields sample_defaults)
  have v: "version_GET (check ?i1) \<noteq> 200" "version_GET (check ?i2) \<noteq> 200"
    "version_GET (check ?i3) \<noteq> 200"
    by (simp_all add: sample_iteration_fields sample_check_fields)
  have c: "m_retryCount sample_ota = 0" "m_maxRetries sample_ota = 3"
    by (simp_all add: sample_defaults)
  have l: "m_checkInterval sample_ota \<le> millis_before ?i2 - millis_after ?i1"
    "m_checkInterval sample_ota \<le> millis_before ?i3 - millis_after ?i2"
    by (simp_all add: sample_iteration_fields sample_defaults)
  obtain s1 t1 where
    k: "checkForUpdate (check ?i1) (sample_ota\<lparr>m_forceCheckFlag := False\<rparr>) =
        Some (False, s1, t1)"
    using checkForUpdate_version_failed[OF v(1)] by blast
  have 0: "\<exists>s1 t1. checkForUpdate (check ?i1) (sample_ota\<lparr>m_forceCheckFlag := False\<rparr>) =
                   Some (False, s1, t1)"
    using k by blast
  from retry_counter[THEN conjunct1, rule_format, of ?i1 sample_ota False s1 t1] w(1) d k
  have 1: "\<exists>s' t. otaTask_iteration ?i1 sample_ota = Some (s', t) \<and> check_performed t \<and>
                  unat (m_retryCount s') = 1"
    by (auto simp: c)
  from retry_counter[THEN conjunct2, THEN conjunct2, rule_format, of sample_ota ?i1 ?i2 ?i3]
    w d v c l
  have 3: "\<exists>s1 t1 s2 t2 s3 t3.
      otaTask_loop [?i1] sample_ota = Some (s1, t1) \<and> m_retryCount s1 = 1 \<and>
      otaTask_loop [?i1, ?i2] sample_ota = Some (s2, t2) \<and> m_retryCount s2 = 2 \<and>
      otaTask_loop [?i1, ?i2, ?i3] sample_ota = Some (s3, t3) \<and> m_retryCount s3 = 0"
    by blast
  show ?thesis using w d v c l 0 1 3 by (intro conjI)
qed

subsection \<open>An up-to-date version\<close>

text \<open>
  C3.  When the version request answers 200 and the downloaded text, trimmed, is the
  configured version (the string \<^verbatim>\<open>getCurrentVersion()\<close> returns),
  \<^verbatim>\<open>checkForUpdate\<close> returns \<^verbatim>\<open>true\<close> through its up-to-date branch and leaves the
  object as it was; the calls it makes include the version request and nothing of
  \<^verbatim>\<open>performUpdate\<close>, whose every run uses the HTTP client of the firmware download.
\<close>

theorem up_to_date:
  assumes "version_GET e = 200"
    and "trim (version_getString e) = getCurrentVersion s"
  shows "(\<exists>t. checkForUpdate e s = Some (True, s, t) \<and> check_performed t \<and>
              \<not> performUpdate_invoked t \<and> ESP_restart \<notin> set t \<and>
              filter is_error_call t = []) \<and>
         (\<forall>r s' t'. performUpdate e s = Some (r, s', t') \<longrightarrow> performUpdate_invoked t')"
proof -
  have "c_str (trim (version_getString e)) = trim (version_getString e)"
    unfolding assms(2) getCurrentVersion_def by (simp add: c_str_id c_str_no_NUL)
  then have eq: "String_equals (trim (version_getString e)) (m_currentVersion s)"
    using assms(2) by (simp add: String_equals_def getCurrentVersion_def)
  show ?thesis
    unfolding checkForUpdate_up_to_date[OF assms(1) eq]
    using performUpdate_visible[of e s]
    by (auto simp: check_performed_def performUpdate_invoked_def)
qed

theorem up_to_date_witness:
  "version_GET (sample_check 200 (''1.0.0'' @ [CHR 0x0A])) = 200 \<and>
   trim (version_getString (sample_check 200 (''1.0.0'' @ [CHR 0x0A]))) =
     getCurrentVersion sample_ota \<and>
   (\<exists>t. checkForUpdate (sample_check 200 (''1.0.0'' @ [CHR 0x0A])) sample_ota =
          Some (True, sample_ota, t) \<and> check_performed t \<and> \<not> performUpdate_invoked t) \<and>
   (\<exists>r s' t'. performUpdate (sample_check 200 (''1.0.0'' @ [CHR 0x0A])) sample_ota =
               Some (r, s', t') \<and> performUpdate_invoked t')"
proof -
  let ?e = "sample_check 200 (''1.0.0'' @ [CHR 0x0A])"
  have a: "version_GET ?e = 200" by (simp add: sample_check_fields)
  have b: "trim (version_getString ?e) = getCurrentVersion sample_ota"
    by (simp add: sample_check_fields trim_def isspace_def getCurrentVersion_sample)
  note th = up_to_date[OF a b]
  from th[THEN conjunct1] have 1:
    "\<exists>t. checkForUpdate ?e sample_ota = Some (True, sample_ota, t) \<and> check_performed t \<and>
         \<not> performUpdate_invoked t"
    by blast
  from performUpdate_branches(4)[OF buffers_sized_sample, of ?e]
  obtain s' t' where p: "performUpdate ?e sample_ota = Some (False, s', t')"
    by (auto simp: sample_check_fields)
  from th[THEN conjunct2, rule_format, OF p] p have 2:
    "\<exists>r s' t'. performUpdate ?e sample_ota = Some (r, s', t') \<and> performUpdate_invoked t'"
    by blast
  show ?thesis using a b 1 2 by (intro conjI)
qed

subsection \<open>A deferred update\<close>

text \<open>
  C4.  When the version request answers 200, the downloaded text, trimmed, is not the
  configured version, staggered rollout is enabled and the percentile of the device hash
  is not below the rollout percentage, \<^verbatim>\<open>checkForUpdate\<close> returns \<^verbatim>\<open>true\<close>, leaves
  the object as it was, and makes no call of \<^verbatim>\<open>performUpdate\<close>.  For a downloaded
  text without a NUL byte the return is the one of the staggered-rollout branch (line
  260), with the calls listed.  The iteration of the task that runs this check sets the
  retry counter to 0: the deferral counts as a success.
\<close>

theorem deferred:
  assumes "version_GET e = 200"
    and "trim (version_getString e) \<noteq> getCurrentVersion s"
    and "m_staggeredRollout s"
    and "\<not> shouldUpdateNow s (macAddress e)"
  shows "(\<exists>t. checkForUpdate e s = Some (True, s, t) \<and> check_performed t \<and>
              \<not> performUpdate_invoked t \<and> ESP_restart \<notin> set t \<and>
              filter is_error_call t = []) \<and>
         (NUL \<notin> set (version_getString e) \<longrightarrow>
            checkForUpdate e s =
              Some (True, s,
                    log s ''[AutoOTA] Checking for firmware update...'' @
                    invoke (m_onVersionCheck s) @
                    [Http_begin VersionHTTP (c_str (m_versionURL s))] @
                    cache_busting VersionHTTP @ [Http_GET VersionHTTP] @
                    logf s (''[AutoOTA] Current: '' @ c_str (m_currentVersion s) @
                            '', Remote: '' @ c_str (trim (version_getString e))) @
                    log s ''[AutoOTA] New version available!'' @
                    logf s (''[AutoOTA] Staggered rollout: Delaying update (device not in '' @
                            dec_int (uint (m_rolloutPercentage s)) @ ''% group)'') @
                    [Http_end VersionHTTP])) \<and>
         (\<forall>i. check i = e \<and> wifi_connected i \<and> check_due i s \<longrightarrow>
              (\<exists>s' t. otaTask_iteration i s = Some (s', t) \<and> m_retryCount s' = 0 \<and>
                      \<not> performUpdate_invoked t \<and> filter is_error_call t = []))"
proof -
  have branch: "\<exists>t. checkForUpdate e z = Some (True, z, t) \<and> check_performed t \<and>
              \<not> performUpdate_invoked t \<and> ESP_restart \<notin> set t \<and>
              filter is_error_call t = []"
    if "m_staggeredRollout z" "\<not> shouldUpdateNow z (macAddress e)" for z
  proof (cases "String_equals (trim (version_getString e)) (m_currentVersion z)")
    case True
    show ?thesis
      unfolding checkForUpdate_up_to_date[OF assms(1) True]
      by (simp add: check_performed_def performUpdate_invoked_def)
  next
    case False
    show ?thesis
      unfolding checkForUpdate_deferred[OF assms(1) False that]
      by (simp add: check_performed_def performUpdate_invoked_def)
  qed
  have 1: "\<exists>t. checkForUpdate e s = Some (True, s, t) \<and> check_performed t \<and>
              \<not> performUpdate_invoked t \<and> ESP_restart \<notin> set t \<and>
              filter is_error_call t = []"
    using branch[OF assms(3,4)] .
  have 2: "checkForUpdate e s =
              Some (True, s,
                    log s ''[AutoOTA] Checking for firmware update...'' @
                    invoke (m_onVersionCheck s) @
                    [Http_begin VersionHTTP (c_str (m_versionURL s))] @
                    cache_busting VersionHTTP @ [Http_GET VersionHTTP] @
                    logf s (''[AutoOTA] Current: '' @ c_str (m_currentVersion s) @
                            '', Remote: '' @ c_str (trim (version_getString e))) @
                    log s ''[AutoOTA] New version available!'' @
                    logf s (''[AutoOTA] Staggered rollout: Delaying update (device not in '' @
                            dec_int (uint (m_rolloutPercentage s)) @ ''% group)'') @
                    [Http_end VersionHTTP])"
    if n: "NUL \<notin> set (version_getString e)"
  proof -
    have "NUL \<notin> set (trim (version_getString e))" using n set_trim by blast
    then have "\<not> String_equals (trim (version_getString e)) (m_currentVersion s)"
      using assms(2) by (simp add: String_equals_text getCurrentVersion_def)
    then show ?thesis by (rule checkForUpdate_deferred[OF assms(1) _ assms(3,4)])
  qed
  have 3: "\<exists>s' t. otaTask_iteration i s = Some (s', t) \<and> m_retryCount s' = 0 \<and>
                      \<not> performUpdate_invoked t \<and> filter is_error_call t = []"
    if i: "check i = e" "wifi_connected i" "check_due i s" for i
  proof -
    let ?z = "s\<lparr>m_forceCheckFlag := False\<rparr>"
    have "m_staggeredRollout ?z" "\<not> shouldUpdateNow ?z (macAddress e)"
      using assms(3,4) by (simp_all add: shouldUpdateNow_def)
    from branch[OF this] obtain t where
      c: "checkForUpdate (check i) ?z = Some (True, ?z, t)"
      and t: "\<not> performUpdate_invoked t" "filter is_error_call t = []"
      unfolding i(1) by blast
    show ?thesis
      unfolding otaTask_iteration_checked[OF i(2,3) c]
      using t retry_bookkeeping_quiet[where ok=True and s="?z"]
      by (simp add: retry_bookkeeping_word performUpdate_invoked_def)
  qed
  show ?thesis using 1 2 3 by blast
qed

theorem deferred_witness:
  "version_GET (sample_check 200 ''1.0.1'') = 200 \<and>
   trim (version_getString (sample_check 200 ''1.0.1'')) \<noteq>
     getCurrentVersion (setStaggeredRollout True 50 sample_ota) \<and>
   m_staggeredRollout (setStaggeredRollout True 50 sample_ota) \<and>
   \<not> shouldUpdateNow (setStaggeredRollout True 50 sample_ota)
        (macAddress (sample_check 200 ''1.0.1'')) \<and>
   NUL \<notin> set (version_getString (sample_check 200 ''1.0.1'')) \<and>
   check (sample_iteration 300000 (sample_check 200 ''1.0.1'')) = sample_check 200 ''1.0.1'' \<and>
   wifi_connected (sample_iteration 300000 (sample_check 200 ''1.0.1'')) \<and>
   check_due (sample_iteration 300000 (sample_check 200 ''1.0.1''))
     (setStaggeredRollout True 50 sample_ota) \<and>
   (\<exists>t. checkForUpdate (sample_check 200 ''1.0.1'') (setStaggeredRollout True 50 sample_ota) =
          Some (True, setStaggeredRollout True 50 sample_ota, t) \<and>
        \<not> performUpdate_invoked t \<and>
        Serial_println ''[AutoOTA] New version available!'' \<in> set t) \<and>
   (\<exists>s' t. otaTask_iteration (sample_iteration 300000 (sample_check 200 ''1.0.1''))
             (setStaggeredRollout True 50 sample_ota) = Some (s', t) \<and>
           m_retryCount s' = 0)"
proof -
  let ?e = "sample_check 200 ''1.0.1''"
  let ?s = "setStaggeredRollout True 50 sample_ota"
  let ?i = "sample_iteration 300000 ?e"
  have a: "version_GET ?e = 200"
    by (simp add: sample_check_fields)
  have b: "trim (version_getString ?e) \<noteq> getCurrentVersion ?s"
    by (simp add: sample_check_fields trim_def isspace_def getCurrentVersion_sample)
  have c: "m_staggeredRollout ?s"
    by (simp add: setStaggeredRollout_def)
  have d: "\<not> shouldUpdateNow ?s (macAddress ?e)"
    using sample_not_eligible by (simp add: sample_check_fields)
  have e: "NUL \<notin> set (version_getString ?e)"
    by (simp add: sample_check_fields)
  have f: "check_due ?i ?s"
    by (simp add: check_due_def sample_iteration_def setStaggeredRollout_def sample_defaults)
  have g: "check ?i = ?e" "wifi_connected ?i"
    by (simp_all add: sample_iteration_def)
  have dbg: "m_debugMode ?s" by (simp add: setStaggeredRollout_def sample_defaults)
  note th = deferred[OF a b c d]
  from th[THEN conjunct1] obtain t where
    1: "checkForUpdate ?e ?s = Some (True, ?s, t)" and 2: "\<not> performUpdate_invoked t"
    by blast
  from th[THEN conjunct2, THEN conjunct1, rule_format, OF e] 1
  have 3: "Serial_println ''[AutoOTA] New version available!'' \<in> set t"
    by (simp add: log_def dbg)
  from th[THEN conjunct2, THEN conjunct2, rule_format, of ?i] g f
  have 4: "\<exists>s' t. otaTask_iteration ?i ?s = Some (s', t) \<and> m_retryCount s' = 0"
    by blast
  have 5: "\<exists>t. checkForUpdate ?e ?s = Some (True, ?s, t) \<and> \<not> performUpdate_invoked t \<and>
        Serial_println ''[AutoOTA] New version available!'' \<in> set t"
    using 1 2 3 by blast
  show ?thesis using a b c d e g f 5 4 by (intro conjI)
qed

subsection \<open>The configuration invariant\<close>

text \<open>
  C5, as amended.  After the constructor, and after every configuration call and every
  sequence of configuration calls, the rollout percentage is at most 100:
  \<^verbatim>\<open>setStaggeredRollout\<close> stores the smaller of its argument and 100.  The bounds of
  the random delay are stored as they are passed: the constructor sets 60000 and 180000,
  \<^verbatim>\<open>setRandomDelay(minMs, maxMs)\<close> leaves the minimum at most the maximum exactly when
  \<^verbatim>\<open>minMs\<close> is at most \<^verbatim>\<open>maxMs\<close>, and no other configuration call changes them.
\<close>

theorem configuration_invariant:
  "unat (m_rolloutPercentage (ESP32_AutoOTA raw)) \<le> 100 \<and>
   m_minRandomDelay (ESP32_AutoOTA raw) = 60000 \<and>
   m_maxRandomDelay (ESP32_AutoOTA raw) = 180000 \<and>
   m_minRandomDelay (ESP32_AutoOTA raw) \<le> m_maxRandomDelay (ESP32_AutoOTA raw) \<and>
   (\<forall>c s. unat (m_rolloutPercentage s) \<le> 100 \<longrightarrow>
          unat (m_rolloutPercentage (fst (configure c s))) \<le> 100) \<and>
   (\<forall>cs s. unat (m_rolloutPercentage s) \<le> 100 \<longrightarrow>
          unat (m_rolloutPercentage (configure_all cs s)) \<le> 100) \<and>
   (\<forall>cs. unat (m_rolloutPercentage (configure_all cs (ESP32_AutoOTA raw))) \<le> 100) \<and>
   (\<forall>enable p s. unat (m_rolloutPercentage (setStaggeredRollout enable p s)) = min (unat p) 100) \<and>
   (\<forall>minMs maxMs s.
      m_minRandomDelay (setRandomDelay minMs maxMs s) = minMs \<and>
      m_maxRandomDelay (setRandomDelay minMs maxMs s) = maxMs \<and>
      (m_minRandomDelay (setRandomDelay minMs maxMs s) \<le>
       m_maxRandomDelay (setRandomDelay minMs maxMs s)) = (minMs \<le> maxMs)) \<and>
   (\<forall>c s. (\<forall>a b. c \<noteq> SetRandomDelay a b) \<longrightarrow>
          m_minRandomDelay (fst (configure c s)) = m_minRandomDelay s \<and>
          m_maxRandomDelay (fst (configure c s)) = m_maxRandomDelay s)"
proof -
  have p0: "unat (m_rolloutPercentage (ESP32_AutoOTA raw)) \<le> 100"
    by (simp add: ESP32_AutoOTA_def)
  have d0: "m_minRandomDelay (ESP32_AutoOTA raw) = 60000"
    "m_maxRandomDelay (ESP32_AutoOTA raw) = 180000"
    by (simp_all add: ESP32_AutoOTA_def)
  have d1: "m_minRandomDelay (ESP32_AutoOTA raw) \<le> m_maxRandomDelay (ESP32_AutoOTA raw)"
    unfolding d0 by (simp add: word_le_nat_alt)
  have sr: "unat (m_rolloutPercentage (setStaggeredRollout enable p s)) = min (unat p) 100"
    for enable p s
    by (simp add: setStaggeredRollout_def unat_clamped)
  have rd: "m_minRandomDelay (setRandomDelay minMs maxMs s) = minMs \<and>
      m_maxRandomDelay (setRandomDelay minMs maxMs s) = maxMs \<and>
      (m_minRandomDelay (setRandomDelay minMs maxMs s) \<le>
       m_maxRandomDelay (setRandomDelay minMs maxMs s)) = (minMs \<le> maxMs)" for minMs maxMs s
    by (simp add: setRandomDelay_def)
  show ?thesis
    apply (intro conjI allI impI)
    subgoal by (rule p0)
    subgoal by (rule d0(1))
    subgoal by (rule d0(2))
    subgoal by (rule d1)
    subgoal for c s by (rule configure_percentage)
    subgoal for cs s by (rule configure_all_percentage)
    subgoal for cs by (rule configure_all_percentage[OF p0])
    subgoal for enable p s by (rule sr)
    subgoal for minMs maxMs s using rd[of minMs maxMs s] by simp
    subgoal for minMs maxMs s using rd[of minMs maxMs s] by simp
    subgoal for minMs maxMs s using rd[of minMs maxMs s] by simp
    subgoal for c s using configure_delays[of c s] by simp
    subgoal for c s using configure_delays[of c s] by simp
    done
qed

theorem configuration_invariant_witness:
  "unat (m_rolloutPercentage sample_ota) \<le> 100 \<and>
   unat (m_rolloutPercentage (fst (configure (SetStaggeredRollout True 200) sample_ota))) \<le> 100 \<and>
   unat (m_rolloutPercentage (setStaggeredRollout True 200 sample_ota)) = 100 \<and>
   unat (m_rolloutPercentage
           (configure_all [SetStaggeredRollout True 200, SetMaxRetries 5,
                           SetRandomDelay 5000 1000] sample_ota)) \<le> 100 \<and>
   m_minRandomDelay (fst (configure (SetMaxRetries 5) sample_ota)) = 60000 \<and>
   m_maxRandomDelay (fst (configure (SetMaxRetries 5) sample_ota)) = 180000 \<and>
   m_minRandomDelay (setRandomDelay 1000 5000 sample_ota) \<le>
     m_maxRandomDelay (setRandomDelay 1000 5000 sample_ota)"
proof -
  have p: "unat (m_rolloutPercentage sample_ota) \<le> 100"
    and d: "m_minRandomDelay sample_ota = 60000" "m_maxRandomDelay sample_ota = 180000"
    by (simp_all add: sample_ota_def setCurrentVersion_def setVersionURL_def setFirmwareURL_def
        ESP32_AutoOTA_def)
  note th = configuration_invariant[of zero_storage]
  have n: "\<And>a b. SetMaxRetries 5 \<noteq> SetRandomDelay a b" by simp
  note t5 = th[THEN conjunct2, THEN conjunct2, THEN conjunct2, THEN conjunct2, THEN conjunct1,
      rule_format, OF p]
  note t6 = th[THEN conjunct2, THEN conjunct2, THEN conjunct2, THEN conjunct2, THEN conjunct2,
      THEN conjunct1, rule_format, OF p]
  note t8 = th[THEN conjunct2, THEN conjunct2, THEN conjunct2, THEN conjunct2, THEN conjunct2,
      THEN conjunct2, THEN conjunct2, THEN conjunct1, rule_format]
  note t9 = th[THEN conjunct2, THEN conjunct2, THEN conjunct2, THEN conjunct2, THEN conjunct2,
      THEN conjunct2, THEN conjunct2, THEN conjunct2, THEN conjunct1, rule_format]
  note t10 = th[THEN conjunct2, THEN conjunct2, THEN conjunct2, THEN conjunct2, THEN conjunct2,
      THEN conjunct2, THEN conjunct2, THEN conjunct2, THEN conjunct2, rule_format, OF n]
  have 3: "unat (m_rolloutPercentage (setStaggeredRollout True 200 sample_ota)) = 100"
    unfolding t8 by simp
  have 7: "m_minRandomDelay (setRandomDelay 1000 5000 sample_ota) \<le>
           m_maxRandomDelay (setRandomDelay 1000 5000 sample_ota)"
    unfolding t9[of 1000 5000 sample_ota, THEN conjunct2, THEN conjunct2]
    by (simp add: word_le_nat_alt)
  show ?thesis
    using p t5[of "SetStaggeredRollout True 200"] 3
      t6[of "[SetStaggeredRollout True 200, SetMaxRetries 5, SetRandomDelay 5000 1000]"]
      t10[of sample_ota] d 7
    by (intro conjI) simp_all
qed

text \<open>
  C5 as it was stated fails after \<^verbatim>\<open>setRandomDelay(5000, 1000)\<close>: the maximum random
  delay is below the minimum.
\<close>

theorem configuration_invariant_counterexample:
  "m_maxRandomDelay (fst (configure (SetRandomDelay 5000 1000) sample_ota)) <
   m_minRandomDelay (fst (configure (SetRandomDelay 5000 1000) sample_ota))"
  by (simp add: setRandomDelay_def word_less_nat_alt)

subsection \<open>The device hash\<close>

text \<open>
  C6.  For the six bytes of the device MAC, \<^verbatim>\<open>getDeviceHash\<close> is the fold of
  \<open>h = h * 31 + byte\<close> over the bytes in their order, from \<open>h = 0\<close>, in unsigned
  32-bit arithmetic, that is modulo \<open>2 ^ 32\<close>.  It is a function of these six bytes
  alone: computed again over the same six bytes, whatever follows them in memory, it is
  the same value.
\<close>

theorem device_hash:
  assumes "length mac = 6"
  shows "getDeviceHash mac = foldl (\<lambda>h b. h * 31 + ucast b) 0 mac \<and>
         unat (getDeviceHash mac) = foldl (\<lambda>h b. (h * 31 + unat b) mod 2 ^ 32) 0 mac \<and>
         (\<forall>mac'. 6 \<le> length mac' \<and> (\<forall>i<6. mac' ! i = mac ! i) \<longrightarrow>
                 getDeviceHash mac' = getDeviceHash mac)"
proof -
  obtain a b c d e f where m: "mac = [a, b, c, d, e, f]"
    using length_six[OF assms] by blast
  have 1: "getDeviceHash mac = foldl (\<lambda>h b. h * 31 + ucast b) 0 mac"
    unfolding m by (rule getDeviceHash_six)
  have 2: "unat (getDeviceHash mac) = foldl (\<lambda>h b. (h * 31 + unat b) mod 2 ^ 32) 0 mac"
    unfolding 1 using unat_hash_fold[of 0 mac] by simp
  have 3: "getDeviceHash mac' = getDeviceHash mac" if "\<forall>i<6. mac' ! i = mac ! i" for mac'
    using that unfolding getDeviceHash_def by (simp add: upt_rec)
  show ?thesis using 1 2 3 by blast
qed

theorem device_hash_witness:
  "length [0x24, 0x6F, 0x28, 0xAA, 0xBB, 0xCC :: u8] = 6 \<and>
   getDeviceHash [0x24, 0x6F, 0x28, 0xAA, 0xBB, 0xCC] = 1134521278 \<and>
   foldl (\<lambda>h b. (h * 31 + unat b) mod 2 ^ 32) 0 [0x24, 0x6F, 0x28, 0xAA, 0xBB, 0xCC :: u8] =
     1134521278 \<and>
   6 \<le> length [0x24, 0x6F, 0x28, 0xAA, 0xBB, 0xCC, 0x01, 0x02 :: u8] \<and>
   getDeviceHash [0x24, 0x6F, 0x28, 0xAA, 0xBB, 0xCC, 0x01, 0x02] =
     getDeviceHash [0x24, 0x6F, 0x28, 0xAA, 0xBB, 0xCC]"
proof -
  have l: "length [0x24, 0x6F, 0x28, 0xAA, 0xBB, 0xCC :: u8] = 6" by simp
  note th = device_hash[OF l]
  have v: "getDeviceHash [0x24, 0x6F, 0x28, 0xAA, 0xBB, 0xCC] = 1134521278"
    unfolding th[THEN conjunct1] by simp
  have n: "foldl (\<lambda>h b. (h * 31 + unat b) mod 2 ^ 32) 0
             [0x24, 0x6F, 0x28, 0xAA, 0xBB, 0xCC :: u8] = 1134521278"
    using th[THEN conjunct2, THEN conjunct1] unfolding v by simp
  have a: "6 \<le> length [0x24, 0x6F, 0x28, 0xAA, 0xBB, 0xCC, 0x01, 0x02 :: u8] \<and>
           (\<forall>i<6. [0x24, 0x6F, 0x28, 0xAA, 0xBB, 0xCC, 0x01, 0x02 :: u8] ! i =
                   [0x24, 0x6F, 0x28, 0xAA, 0xBB, 0xCC] ! i)"
    by (simp add: less_Suc_eq eval_nat_numeral)
  from th[THEN conjunct2, THEN conjunct2, rule_format, OF a] l v n show ?thesis by simp
qed

subsection \<open>The failure branches\<close>

text \<open>
  C7, as amended.  Whenever \<^verbatim>\<open>checkForUpdate\<close> or \<^verbatim>\<open>performUpdate\<close> returns
  \<^verbatim>\<open>false\<close>, the last-error message is one of the six messages of the failure
  branches and is not empty, nothing else of the object has changed, the error callback,
  when one is registered, has been called exactly once, with this message (no callback,
  no call), and the device has not been restarted.  Each failure branch returns
  \<^verbatim>\<open>false\<close> with its message: a version request that does not answer 200, a download
  that does not answer 200, a content length that is not positive, a refused
  \<^verbatim>\<open>Update.begin\<close>, and, once the write loop has ended, a failed \<^verbatim>\<open>Update.end\<close> and
  an update that is not finished.  The iteration of the task that ran the failed check
  increments the retry counter by 1, and resets it to 0 when it has reached
  \<^verbatim>\<open>maxRetries\<close>.
\<close>

theorem failure_branches:
  assumes b: "buffers_sized s"
  shows
   "(\<forall>s' t. checkForUpdate e s = Some (False, s', t) \<longrightarrow>
        failure_reported s s' t \<and> getLastError s' \<in> set (failure_messages e)) \<and>
    (\<forall>s' t. performUpdate e s = Some (False, s', t) \<longrightarrow>
        failure_reported s s' t \<and> getLastError s' \<in> set (tl (failure_messages e))) \<and>
    (version_GET e \<noteq> 200 \<longrightarrow>
       (\<exists>s' t. checkForUpdate e s = Some (False, s', t) \<and>
               getLastError s' = ''Version check failed'')) \<and>
    (firmware_GET e \<noteq> 200 \<longrightarrow>
       (\<exists>s' t. performUpdate e s = Some (False, s', t) \<and>
               getLastError s' =
                 take 63 (''Download failed: HTTP '' @ dec_int (firmware_GET e)))) \<and>
    (firmware_GET e = 200 \<and> sint (firmware_getSize e) \<le> 0 \<longrightarrow>
       (\<exists>s' t. performUpdate e s = Some (False, s', t) \<and>
               getLastError s' = ''Content length is zero'')) \<and>
    (firmware_GET e = 200 \<and> 0 < sint (firmware_getSize e) \<and> \<not> update_begin e \<longrightarrow>
       (\<exists>s' t. performUpdate e s = Some (False, s', t) \<and>
               getLastError s' = ''Not enough space for OTA'')) \<and>
    (firmware_GET e = 200 \<and> 0 < sint (firmware_getSize e) \<and> update_begin e \<and>
     (\<exists>p\<in>set (polls e). \<not> http_connected p) \<and> \<not> update_end e \<longrightarrow>
       (\<exists>s' t. performUpdate e s = Some (False, s', t) \<and>
               getLastError s' =
                 take 63 (''Update failed: error '' @ dec_int (uint (update_getError e))))) \<and>
    (firmware_GET e = 200 \<and> 0 < sint (firmware_getSize e) \<and> update_begin e \<and>
     (\<exists>p\<in>set (polls e). \<not> http_connected p) \<and> update_end e \<and> \<not> update_isFinished e \<longrightarrow>
       (\<exists>s' t. performUpdate e s = Some (False, s', t) \<and>
               getLastError s' = ''Update not finished'')) \<and>
    (\<forall>i s1 t1.
       check i = e \<and> wifi_connected i \<and> check_due i s \<and>
       checkForUpdate e (s\<lparr>m_forceCheckFlag := False\<rparr>) = Some (False, s1, t1) \<longrightarrow>
       (\<exists>s' t. otaTask_iteration i s = Some (s', t) \<and>
               m_retryCount s' =
                 (if m_maxRetries s \<le> m_retryCount s + 1 then 0 else m_retryCount s + 1) \<and>
               unat (m_retryCount s') =
                 (if unat (m_maxRetries s) \<le> unat (m_retryCount s) + 1 then 0
                  else unat (m_retryCount s) + 1)))"
proof -
  note len = buffers_sized_lastError[OF b]
  have 1: "failure_reported s s' t \<and> getLastError s' \<in> set (failure_messages e)"
    if "checkForUpdate e s = Some (False, s', t)" for s' t
    using checkForUpdate_result[OF len that] by simp
  have 2: "failure_reported s s' t \<and> getLastError s' \<in> set (tl (failure_messages e))"
    if "performUpdate e s = Some (False, s', t)" for s' t
    using performUpdate_result[OF len that] by simp
  have 3: "\<exists>s' t. checkForUpdate e s = Some (False, s', t) \<and>
               getLastError s' = ''Version check failed''"
    if "version_GET e \<noteq> 200"
    using checkForUpdate_version_failed_reported[OF b that] by blast
  have 9: "\<exists>s' t. otaTask_iteration i s = Some (s', t) \<and>
               m_retryCount s' =
                 (if m_maxRetries s \<le> m_retryCount s + 1 then 0 else m_retryCount s + 1) \<and>
               unat (m_retryCount s') =
                 (if unat (m_maxRetries s) \<le> unat (m_retryCount s) + 1 then 0
                  else unat (m_retryCount s) + 1)"
    if "check i = e" "wifi_connected i" "check_due i s"
      "checkForUpdate e (s\<lparr>m_forceCheckFlag := False\<rparr>) = Some (False, s1, t1)" for i s1 t1
    using otaTask_iteration_retry[OF that(2,3), of False s1 t1] that(1,4) by auto
  note br = performUpdate_branches[OF b, of e]
  show ?thesis
    apply (intro conjI allI impI)
    subgoal for s' t using 1[of s' t] by simp
    subgoal for s' t using 1[of s' t] by simp
    subgoal for s' t using 2[of s' t] by simp
    subgoal for s' t using 2[of s' t] by simp
    subgoal using 3 by simp
    subgoal using br(1) by simp
    subgoal using br(2) by simp
    subgoal using br(3) by simp
    subgoal using br(4) by simp
    subgoal using br(5) by simp
    subgoal for i s1 t1 using 9[of i s1 t1] by simp
    done
qed

theorem failure_branches_witness:
  "buffers_sized (onUpdateError (Some 7) sample_ota) \<and>
   version_GET (sample_check 404 []) \<noteq> 200 \<and>
   (\<exists>s' t. checkForUpdate (sample_check 404 []) (onUpdateError (Some 7) sample_ota) =
             Some (False, s', t) \<and>
           getLastError s' = ''Version check failed'' \<and>
           filter is_error_call t = [Call_OTAErrorCallback 7 ''Version check failed''] \<and>
           ESP_restart \<notin> set t) \<and>
   (\<exists>s' t. performUpdate ((sample_check 200 ''1.0.1'')\<lparr>firmware_GET := 404\<rparr>)
             (onUpdateError (Some 7) sample_ota) = Some (False, s', t) \<and>
           getLastError s' = ''Download failed: HTTP 404'') \<and>
   (\<exists>s' t. performUpdate ((sample_check 200 ''1.0.1'')\<lparr>firmware_getSize := 0\<rparr>)
             (onUpdateError (Some 7) sample_ota) = Some (False, s', t) \<and>
           getLastError s' = ''Content length is zero'') \<and>
   (\<exists>s' t. performUpdate ((sample_check 200 ''1.0.1'')\<lparr>update_begin := False\<rparr>)
             (onUpdateError (Some 7) sample_ota) = Some (False, s', t) \<and>
           getLastError s' = ''Not enough space for OTA'') \<and>
   (\<exists>s' t. performUpdate (sample_check 200 ''1.0.1'') (onUpdateError (Some 7) sample_ota) =
             Some (False, s', t) \<and>
           getLastError s' = ''Update failed: error 9'' \<and>
           filter is_error_call t = [Call_OTAErrorCallback 7 ''Update failed: error 9''] \<and>
           ESP_restart \<notin> set t) \<and>
   (\<exists>s' t. performUpdate ((sample_check 200 ''1.0.1'')\<lparr>update_end := True\<rparr>)
             (onUpdateError (Some 7) sample_ota) = Some (False, s', t) \<and>
           getLastError s' = ''Update not finished'') \<and>
   (\<exists>s' t. otaTask_iteration (sample_iteration 300000 (sample_check 404 []))
             (onUpdateError (Some 7) sample_ota) = Some (s', t) \<and>
           m_retryCount s' = 1)"
proof -
  let ?s = "onUpdateError (Some 7) sample_ota"
  let ?e = "sample_check 200 ''1.0.1''"
  let ?i = "sample_iteration 300000 (sample_check 404 [])"
  note b = sample_registered(1)[of "Some 7"]
  note th = failure_branches[OF b]
  note th1 = th[of "sample_check 404 []"]
  note th2 = th[of ?e]
  have v: "version_GET (sample_check 404 []) \<noteq> 200" by (simp add: sample_check_fields)
  from th1[THEN conjunct2, THEN conjunct2, THEN conjunct1, rule_format, OF v]
  obtain s' t where
    c: "checkForUpdate (sample_check 404 []) ?s = Some (False, s', t)"
    and g: "getLastError s' = ''Version check failed''" by blast
  from th1[THEN conjunct1, rule_format, OF c] have "failure_reported ?s s' t" by simp
  then have 1: "filter is_error_call t = [Call_OTAErrorCallback 7 ''Version check failed'']"
    "ESP_restart \<notin> set t"
    by (simp_all add: failure_reported_def g sample_registered)
  have A: "\<exists>s' t. checkForUpdate (sample_check 404 []) ?s = Some (False, s', t) \<and>
           getLastError s' = ''Version check failed'' \<and>
           filter is_error_call t = [Call_OTAErrorCallback 7 ''Version check failed''] \<and>
           ESP_restart \<notin> set t"
    using c g 1 by (intro exI[of _ s'] exI[of _ t]) simp
  have h4: "firmware_GET (?e\<lparr>firmware_GET := 404\<rparr>) \<noteq> 200" by simp
  have m4: "take 63 (''Download failed: HTTP '' @
                     dec_int (firmware_GET (?e\<lparr>firmware_GET := 404\<rparr>))) =
            ''Download failed: HTTP 404''"
    by (simp add: dec_int_def dec_nat.simps)
  have B: "\<exists>s' t. performUpdate (?e\<lparr>firmware_GET := 404\<rparr>) ?s = Some (False, s', t) \<and>
           getLastError s' = ''Download failed: HTTP 404''"
    using th[of "?e\<lparr>firmware_GET := 404\<rparr>", THEN conjunct2, THEN conjunct2, THEN conjunct2,
        THEN conjunct1, rule_format, OF h4]
    unfolding m4 .
  have h5: "firmware_GET (?e\<lparr>firmware_getSize := 0\<rparr>) = 200 \<and>
            sint (firmware_getSize (?e\<lparr>firmware_getSize := 0\<rparr>)) \<le> 0"
    by (simp add: sample_check_fields)
  have C: "\<exists>s' t. performUpdate (?e\<lparr>firmware_getSize := 0\<rparr>) ?s = Some (False, s', t) \<and>
           getLastError s' = ''Content length is zero''"
    using th[of "?e\<lparr>firmware_getSize := 0\<rparr>", THEN conjunct2, THEN conjunct2, THEN conjunct2,
        THEN conjunct2, THEN conjunct1, rule_format, OF h5] .
  have h6: "firmware_GET (?e\<lparr>update_begin := False\<rparr>) = 200 \<and>
            0 < sint (firmware_getSize (?e\<lparr>update_begin := False\<rparr>)) \<and>
            \<not> update_begin (?e\<lparr>update_begin := False\<rparr>)"
    by (simp add: sample_check_fields)
  have D: "\<exists>s' t. performUpdate (?e\<lparr>update_begin := False\<rparr>) ?s = Some (False, s', t) \<and>
           getLastError s' = ''Not enough space for OTA''"
    using th[of "?e\<lparr>update_begin := False\<rparr>", THEN conjunct2, THEN conjunct2, THEN conjunct2,
        THEN conjunct2, THEN conjunct2, THEN conjunct1, rule_format, OF h6] .
  have h7: "firmware_GET ?e = 200 \<and> 0 < sint (firmware_getSize ?e) \<and> update_begin ?e \<and>
            (\<exists>p\<in>set (polls ?e). \<not> http_connected p) \<and> \<not> update_end ?e"
    by (simp add: sample_check_fields)
  have m7: "take 63 (''Update failed: error '' @ dec_int (uint (update_getError ?e))) =
            ''Update failed: error 9''"
    by (simp add: sample_check_fields dec_int_def dec_nat.simps)
  from th2[THEN conjunct2, THEN conjunct2, THEN conjunct2, THEN conjunct2, THEN conjunct2,
      THEN conjunct2, THEN conjunct1, rule_format, OF h7]
  obtain s2 t2 where
    p: "performUpdate ?e ?s = Some (False, s2, t2)"
    and g2: "getLastError s2 = ''Update failed: error 9''" unfolding m7 by blast
  from th2[THEN conjunct2, THEN conjunct1, rule_format, OF p]
  have "failure_reported ?s s2 t2" by simp
  then have 2: "filter is_error_call t2 = [Call_OTAErrorCallback 7 ''Update failed: error 9'']"
    "ESP_restart \<notin> set t2"
    by (simp_all add: failure_reported_def g2 sample_registered)
  have E: "\<exists>s' t. performUpdate ?e ?s = Some (False, s', t) \<and>
           getLastError s' = ''Update failed: error 9'' \<and>
           filter is_error_call t = [Call_OTAErrorCallback 7 ''Update failed: error 9''] \<and>
           ESP_restart \<notin> set t"
    using p g2 2 by (intro exI[of _ s2] exI[of _ t2]) simp
  have h8: "firmware_GET (?e\<lparr>update_end := True\<rparr>) = 200 \<and>
            0 < sint (firmware_getSize (?e\<lparr>update_end := True\<rparr>)) \<and>
            update_begin (?e\<lparr>update_end := True\<rparr>) \<and>
            (\<exists>p\<in>set (polls (?e\<lparr>update_end := True\<rparr>)). \<not> http_connected p) \<and>
            update_end (?e\<lparr>update_end := True\<rparr>) \<and>
            \<not> update_isFinished (?e\<lparr>update_end := True\<rparr>)"
    using sample_check_fields(7)[of 200 "''1.0.1''"] by (simp add: sample_check_fields)
  have F: "\<exists>s' t. performUpdate (?e\<lparr>update_end := True\<rparr>) ?s = Some (False, s', t) \<and>
           getLastError s' = ''Update not finished''"
    using th[of "?e\<lparr>update_end := True\<rparr>", THEN conjunct2, THEN conjunct2, THEN conjunct2,
        THEN conjunct2, THEN conjunct2, THEN conjunct2, THEN conjunct2, THEN conjunct1,
        rule_format, OF h8] .
  obtain s1 t1 where
    k: "checkForUpdate (sample_check 404 []) (?s\<lparr>m_forceCheckFlag := False\<rparr>) =
        Some (False, s1, t1)"
    using checkForUpdate_version_failed[OF v] by blast
  have h9: "check ?i = sample_check 404 [] \<and> wifi_connected ?i \<and> check_due ?i ?s \<and>
            checkForUpdate (sample_check 404 []) (?s\<lparr>m_forceCheckFlag := False\<rparr>) =
              Some (False, s1, t1)"
    using k by (simp add: sample_iteration_fields check_due_def sample_registered)
  have r: "(if m_maxRetries ?s \<le> m_retryCount ?s + 1 then 0 else m_retryCount ?s + 1) = 1"
    by (simp add: sample_registered word_le_nat_alt)
  from th1[THEN conjunct2, THEN conjunct2, THEN conjunct2, THEN conjunct2, THEN conjunct2,
      THEN conjunct2, THEN conjunct2, THEN conjunct2, rule_format, OF h9]
  have G: "\<exists>s' t. otaTask_iteration ?i ?s = Some (s', t) \<and> m_retryCount s' = 1"
    unfolding r by blast
  show ?thesis using b v A B C D E F G by (intro conjI)
qed

text \<open>
  C7 as it was stated fails on the configured sample object, which has the default
  \<^verbatim>\<open>maxRetries = 3\<close> and no error callback: after two failed checks the counter is 2,
  and the third failed check leaves it at 0, not at 3; and no error callback is called in
  the three iterations.
\<close>

theorem failure_branches_counterexample:
  "map_option (m_retryCount \<circ> fst)
     (otaTask_loop [sample_iteration 300000 (sample_check 404 []),
                    sample_iteration 600005 (sample_check 404 [])] sample_ota) = Some 2 \<and>
   map_option (m_retryCount \<circ> fst)
     (otaTask_loop [sample_iteration 300000 (sample_check 404 []),
                    sample_iteration 600005 (sample_check 404 []),
                    sample_iteration 900010 (sample_check 404 [])] sample_ota) = Some 0 \<and>
   map_option (filter is_error_call \<circ> snd)
     (otaTask_loop [sample_iteration 300000 (sample_check 404 []),
                    sample_iteration 600005 (sample_check 404 []),
                    sample_iteration 900010 (sample_check 404 [])] sample_ota) = Some [] \<and>
   map_option (getLastError \<circ> fst)
     (otaTask_loop [sample_iteration 300000 (sample_check 404 []),
                    sample_iteration 600005 (sample_check 404 []),
                    sample_iteration 900010 (sample_check 404 [])] sample_ota) =
     Some ''Version check failed''"
proof -
  let ?i1 = "sample_iteration 300000 (sample_check 404 [])"
  let ?i2 = "sample_iteration 600005 (sample_check 404 [])"
  let ?i3 = "sample_iteration 900010 (sample_check 404 [])"
  have w: "wifi_connected ?i1" "wifi_connected ?i2" "wifi_connected ?i3"
    and v: "version_GET (check ?i1) \<noteq> 200" "version_GET (check ?i2) \<noteq> 200"
      "version_GET (check ?i3) \<noteq> 200"
    by (simp_all add: sample_iteration_fields sample_check_fields)
  have d1: "check_due ?i1 sample_ota"
    by (simp add: check_due_def sample_iteration_fields sample_defaults)
  note f1 = otaTask_iteration_version_failed_full[OF buffers_sized_sample w(1) d1 v(1)]
  have k1: "(if m_maxRetries sample_ota \<le> m_retryCount sample_ota + 1 then 0
             else m_retryCount sample_ota + 1) = 1"
    by (simp add: sample_defaults word_le_nat_alt)
  from f1 obtain s1 t1 where 1: "otaTask_iteration ?i1 sample_ota = Some (s1, t1)"
    and b1: "buffers_sized s1"
    and e1: "filter is_error_call t1 =
             (case m_onUpdateError sample_ota of
                None \<Rightarrow> []
              | Some f \<Rightarrow> [Call_OTAErrorCallback f ''Version check failed''])"
    and cb1: "m_onUpdateError s1 = m_onUpdateError sample_ota"
    and r1: "m_retryCount s1 = 1"
    and m1: "m_maxRetries s1 = m_maxRetries sample_ota"
    and c1: "m_checkInterval s1 = m_checkInterval sample_ota"
    and l1: "m_lastCheckTime s1 = millis_after ?i1"
    unfolding k1 by blast
  have d2: "check_due ?i2 s1"
    by (simp add: check_due_def sample_iteration_fields c1 l1 sample_defaults)
  note f2 = otaTask_iteration_version_failed_full[OF b1 w(2) d2 v(2)]
  have k2: "(if m_maxRetries s1 \<le> m_retryCount s1 + 1 then 0 else m_retryCount s1 + 1) = 2"
    by (simp add: r1 m1 sample_defaults word_le_nat_alt)
  from f2 obtain s2 t2 where 2: "otaTask_iteration ?i2 s1 = Some (s2, t2)"
    and b2: "buffers_sized s2"
    and e2: "filter is_error_call t2 =
             (case m_onUpdateError s1 of
                None \<Rightarrow> []
              | Some f \<Rightarrow> [Call_OTAErrorCallback f ''Version check failed''])"
    and cb2: "m_onUpdateError s2 = m_onUpdateError s1"
    and r2: "m_retryCount s2 = 2"
    and m2: "m_maxRetries s2 = m_maxRetries s1"
    and c2: "m_checkInterval s2 = m_checkInterval s1"
    and l2: "m_lastCheckTime s2 = millis_after ?i2"
    unfolding k2 by blast
  have d3: "check_due ?i3 s2"
    by (simp add: check_due_def sample_iteration_fields c2 l2 c1 sample_defaults)
  note f3 = otaTask_iteration_version_failed_full[OF b2 w(3) d3 v(3)]
  have k3: "(if m_maxRetries s2 \<le> m_retryCount s2 + 1 then 0 else m_retryCount s2 + 1) = 0"
    by (simp add: r2 m2 m1 sample_defaults)
  from f3 obtain s3 t3 where 3: "otaTask_iteration ?i3 s2 = Some (s3, t3)"
    and e3: "filter is_error_call t3 =
             (case m_onUpdateError s2 of
                None \<Rightarrow> []
              | Some f \<Rightarrow> [Call_OTAErrorCallback f ''Version check failed''])"
    and r3: "m_retryCount s3 = 0" and g3: "getLastError s3 = ''Version check failed''"
    unfolding k3 by blast
  have e: "filter is_error_call t1 = []" "filter is_error_call t2 = []"
    "filter is_error_call t3 = []"
    unfolding e1 e2 e3 cb2 cb1 by (simp_all add: sample_defaults)
  show ?thesis
    by (simp add: 1 2 3 r2 r3 e g3)
qed

subsection \<open>The result of begin\<close>

text \<open>
  C8, as amended.  \<^verbatim>\<open>begin()\<close> returns \<^verbatim>\<open>true\<close> exactly when the agent is not
  running, both URLs are non-empty, WiFi is connected and \<^verbatim>\<open>xTaskCreate\<close> succeeds;
  then the running flag is set and the task handle stored.  When it returns
  \<^verbatim>\<open>false\<close> the running flag and the handle are as before.  The task creation is
  attempted exactly when the first three conditions hold.
\<close>

theorem begin_result:
  "fst (begin_ota e s) =
     (\<not> m_isRunning s \<and> strlen (m_firmwareURL s) \<noteq> 0 \<and> strlen (m_versionURL s) \<noteq> 0 \<and>
      WiFi_connected e \<and> xTaskCreate_handle e \<noteq> None) \<and>
   (if fst (begin_ota e s)
    then m_isRunning (fst (snd (begin_ota e s))) \<and>
         m_taskHandle (fst (snd (begin_ota e s))) = xTaskCreate_handle e
    else m_isRunning (fst (snd (begin_ota e s))) = m_isRunning s \<and>
         m_taskHandle (fst (snd (begin_ota e s))) = m_taskHandle s) \<and>
   (XTaskCreate \<in> set (snd (snd (begin_ota e s)))) =
     (\<not> m_isRunning s \<and> strlen (m_firmwareURL s) \<noteq> 0 \<and> strlen (m_versionURL s) \<noteq> 0 \<and>
      WiFi_connected e)"
proof (cases "m_isRunning s")
  case True
  then show ?thesis by (simp add: begin_ota_cases(1) log_def)
next
  case nr: False
  show ?thesis
  proof (cases "strlen (m_firmwareURL s) = 0 \<or> strlen (m_versionURL s) = 0")
    case True
    then show ?thesis
      using nr setError_control[of "''Firmware or version URL not set''" s]
      by (auto simp add: begin_ota_cases(2)[OF nr True])
  next
    case False
    then have u: "strlen (m_firmwareURL s) \<noteq> 0" "strlen (m_versionURL s) \<noteq> 0" by simp_all
    show ?thesis
    proof (cases "WiFi_connected e")
      case False
      then show ?thesis
        using nr u setError_control[of "''WiFi not connected''" s]
        by (simp add: begin_ota_cases(3)[OF nr u False])
    next
      case w: True
      show ?thesis
      proof (cases "xTaskCreate_handle e")
        case None
        then show ?thesis
          using nr u w setError_control[of "''Failed to create task''" s]
          by (simp add: begin_ota_cases(4)[OF nr u w None])
      next
        case (Some h)
        then show ?thesis
          using nr u w by (simp add: begin_ota_cases(5)[OF nr u w Some])
      qed
    qed
  qed
qed

theorem begin_result_witness:
  "fst (begin_ota \<lparr>WiFi_connected = True, xTaskCreate_handle = Some 7\<rparr> sample_ota) \<and>
   m_isRunning (fst (snd (begin_ota \<lparr>WiFi_connected = True, xTaskCreate_handle = Some 7\<rparr>
                            sample_ota))) \<and>
   \<not> fst (begin_ota \<lparr>WiFi_connected = False, xTaskCreate_handle = Some 7\<rparr> sample_ota) \<and>
   \<not> fst (begin_ota \<lparr>WiFi_connected = True, xTaskCreate_handle = Some 7\<rparr>
           (ESP32_AutoOTA zero_storage))"
proof -
  have e: "strlen (m_firmwareURL (ESP32_AutoOTA zero_storage)) = 0"
    by (simp add: strlen_def ESP32_AutoOTA_def c_str_clear)
  show ?thesis
    using begin_result[of "\<lparr>WiFi_connected = True, xTaskCreate_handle = Some 7\<rparr>" sample_ota]
      begin_result[of "\<lparr>WiFi_connected = False, xTaskCreate_handle = Some 7\<rparr>" sample_ota]
      begin_result[of "\<lparr>WiFi_connected = True, xTaskCreate_handle = Some 7\<rparr>"
        "ESP32_AutoOTA zero_storage"] e
    by (simp add: strlen_def sample_urls sample_defaults)
qed

text \<open>
  C8 as it was stated fails when the task cannot be created: the agent is not running,
  both URLs are set and WiFi is connected, and \<^verbatim>\<open>begin()\<close> returns \<^verbatim>\<open>false\<close>.
\<close>

theorem begin_counterexample:
  "\<not> fst (begin_ota \<lparr>WiFi_connected = True, xTaskCreate_handle = None\<rparr> sample_ota) \<and>
   \<not> m_isRunning sample_ota \<and>
   strlen (m_firmwareURL sample_ota) \<noteq> 0 \<and>
   strlen (m_versionURL sample_ota) \<noteq> 0 \<and>
   WiFi_connected \<lparr>WiFi_connected = True, xTaskCreate_handle = None\<rparr>"
  using begin_ota_cases(4)[of sample_ota "\<lparr>WiFi_connected = True, xTaskCreate_handle = None\<rparr>"]
  by (simp add: strlen_def sample_urls sample_defaults)

subsection \<open>A forced check\<close>

text \<open>
  C9.  \<^verbatim>\<open>forceCheck()\<close> sets the force-check flag and changes nothing else of the
  object; besides the assignment it makes one call, \<^verbatim>\<open>Serial.println\<close> of a log line,
  when debug mode is on, and none when it is off; it runs no check and no update.  In an
  iteration of the task with WiFi connected that finds the flag set, the check is due
  whatever \<^verbatim>\<open>millis()\<close>, the time of the last check and the check interval are.  The
  first thing the iteration does is the assignment that clears the flag; the calls of
  \<^verbatim>\<open>checkForUpdate\<close> follow it, so every call of the check, and every later call of the
  iteration, is made while the flag is clear; the iteration makes no call of a check
  besides these, and the flag is clear when it ends.  When the check does not return,
  neither does the iteration.  While WiFi is down the iteration runs no check and the
  flag stays set.
\<close>

theorem force_check:
  "forceCheck s =
     (s\<lparr>m_forceCheckFlag := True\<rparr>,
      Store_forceCheckFlag True #
      (if m_debugMode s then [Serial_println ''[AutoOTA] Force check requested''] else [])) \<and>
   \<not> check_performed (snd (forceCheck s)) \<and>
   \<not> performUpdate_invoked (snd (forceCheck s)) \<and>
   (\<forall>i :: iter_env. wifi_connected i \<longrightarrow>
      check_due i (fst (forceCheck s)) \<and>
      (case checkForUpdate (check i) (s\<lparr>m_forceCheckFlag := False\<rparr>) of
         None \<Rightarrow> otaTask_iteration i (fst (forceCheck s)) = None
       | Some (ok, s1, t1) \<Rightarrow>
           check_performed t1 \<and>
           (\<exists>s' t'. otaTask_iteration i (fst (forceCheck s)) =
                      Some (s', Store_forceCheckFlag False # t1 @ t') \<and>
                    flag_at_calls True (Store_forceCheckFlag False # t1 @ t') =
                      map (\<lambda>ev. (ev, False)) (t1 @ t') \<and>
                    \<not> check_performed t' \<and> \<not> m_forceCheckFlag s'))) \<and>
   (\<forall>i :: iter_env. \<not> wifi_connected i \<longrightarrow>
      (\<exists>t. otaTask_iteration i (fst (forceCheck s)) = Some (fst (forceCheck s), t) \<and>
           flag_at_calls True t = map (\<lambda>ev. (ev, True)) t \<and> \<not> check_performed t))"
proof -
  let ?f = "fst (forceCheck s)"
  have f: "?f = s\<lparr>m_forceCheckFlag := True\<rparr>" by (simp add: forceCheck_def)
  have z: "?f\<lparr>m_forceCheckFlag := False\<rparr> = s\<lparr>m_forceCheckFlag := False\<rparr>"
    by (simp add: f)
  have 1: "forceCheck s =
     (s\<lparr>m_forceCheckFlag := True\<rparr>,
      Store_forceCheckFlag True #
      (if m_debugMode s then [Serial_println ''[AutoOTA] Force check requested''] else []))"
    by (simp add: forceCheck_def log_def)
  have 2: "\<not> check_performed (snd (forceCheck s))" "\<not> performUpdate_invoked (snd (forceCheck s))"
    by (simp_all add: forceCheck_def check_performed_def performUpdate_invoked_def)
  have 3: "check_due i ?f \<and>
      (case checkForUpdate (check i) (s\<lparr>m_forceCheckFlag := False\<rparr>) of
         None \<Rightarrow> otaTask_iteration i ?f = None
       | Some (ok, s1, t1) \<Rightarrow>
           check_performed t1 \<and>
           (\<exists>s' t'. otaTask_iteration i ?f = Some (s', Store_forceCheckFlag False # t1 @ t') \<and>
                    flag_at_calls True (Store_forceCheckFlag False # t1 @ t') =
                      map (\<lambda>ev. (ev, False)) (t1 @ t') \<and>
                    \<not> check_performed t' \<and> \<not> m_forceCheckFlag s'))"
    if w: "wifi_connected i" for i :: iter_env
  proof -
    have d: "check_due i ?f" by (simp add: check_due_def f)
    show ?thesis
    proof (cases "checkForUpdate (check i) (s\<lparr>m_forceCheckFlag := False\<rparr>)")
      case None
      then have "checkForUpdate (check i) (?f\<lparr>m_forceCheckFlag := False\<rparr>) = None"
        unfolding z .
      from otaTask_iteration_stuck[OF w d this] None d show ?thesis by simp
    next
      case (Some res)
      obtain ok s1 t1 where res: "res = (ok, s1, t1)" by (cases res)
      have c: "checkForUpdate (check i) (?f\<lparr>m_forceCheckFlag := False\<rparr>) = Some (ok, s1, t1)"
        unfolding z using Some res by simp
      let ?t' = "snd (retry_bookkeeping ok s1) @
                 [VTaskDelay_ms (m_checkInterval s1 + random_jitter i)]"
      let ?s' = "(fst (retry_bookkeeping ok s1))\<lparr>m_lastCheckTime := millis_after i\<rparr>"
      have g: "\<not> m_forceCheckFlag s1" using checkForUpdate_scalars(4)[OF c] by (simp add: f)
      have v: "check_performed t1" using c by (rule checkForUpdate_visible)
      have n: "Store_forceCheckFlag b \<notin> set (t1 @ ?t')" for b
        using checkForUpdate_no_store[OF c, of b] retry_bookkeeping_no_store[of b ok s1]
        by simp
      have a: "flag_at_calls True (Store_forceCheckFlag False # t1 @ ?t') =
               map (\<lambda>ev. (ev, False)) (t1 @ ?t')"
        using flag_at_calls_no_store[of "t1 @ ?t'" False] n by simp
      have q: "\<not> check_performed ?t'"
        by (simp add: check_performed_def retry_bookkeeping_quiet)
      have e: "\<not> m_forceCheckFlag ?s'"
        using g by (simp add: retry_bookkeeping_def Let_def)
      have o: "otaTask_iteration i ?f = Some (?s', Store_forceCheckFlag False # t1 @ ?t')"
        using otaTask_iteration_checked[OF w d c] by simp
      have "\<exists>s' t'. otaTask_iteration i ?f = Some (s', Store_forceCheckFlag False # t1 @ t') \<and>
                    flag_at_calls True (Store_forceCheckFlag False # t1 @ t') =
                      map (\<lambda>ev. (ev, False)) (t1 @ t') \<and>
                    \<not> check_performed t' \<and> \<not> m_forceCheckFlag s'"
        using o a q e by (intro exI[of _ ?s'] exI[of _ ?t'] conjI)
      then show ?thesis using d v Some res by simp
    qed
  qed
  have 4: "\<exists>t. otaTask_iteration i ?f = Some (?f, t) \<and>
               flag_at_calls True t = map (\<lambda>ev. (ev, True)) t \<and> \<not> check_performed t"
    if "\<not> wifi_connected i" for i :: iter_env
    unfolding otaTask_iteration_offline[OF that]
    by (simp add: check_performed_def log_def)
  show ?thesis using 1 2 3 4 by blast
qed

theorem force_check_witness:
  "wifi_connected (sample_iteration 5 (sample_check 200 ''1.0.0'')) \<and>
   \<not> check_due (sample_iteration 5 (sample_check 200 ''1.0.0'')) sample_ota \<and>
   otaTask_iteration (sample_iteration 5 (sample_check 200 ''1.0.0'')) sample_ota =
     Some (sample_ota, [VTaskDelay_ms 300000]) \<and>
   check_due (sample_iteration 5 (sample_check 200 ''1.0.0'')) (fst (forceCheck sample_ota)) \<and>
   (\<exists>s' t. otaTask_iteration (sample_iteration 5 (sample_check 200 ''1.0.0''))
             (fst (forceCheck sample_ota)) = Some (s', Store_forceCheckFlag False # t) \<and>
           flag_at_calls True (Store_forceCheckFlag False # t) = map (\<lambda>ev. (ev, False)) t \<and>
           check_performed t \<and> \<not> m_forceCheckFlag s') \<and>
   \<not> wifi_connected ((sample_iteration 5 (sample_check 200 ''1.0.0''))
                       \<lparr>wifi_connected := False\<rparr>) \<and>
   (\<exists>t. otaTask_iteration ((sample_iteration 5 (sample_check 200 ''1.0.0''))
                             \<lparr>wifi_connected := False\<rparr>)
          (fst (forceCheck sample_ota)) = Some (fst (forceCheck sample_ota), t) \<and>
        \<not> check_performed t \<and> m_forceCheckFlag (fst (forceCheck sample_ota)))"
proof -
  let ?i = "sample_iteration 5 (sample_check 200 ''1.0.0'')"
  let ?o = "?i\<lparr>wifi_connected := False\<rparr>"
  note th = force_check[of sample_ota]
  have w: "wifi_connected ?i" by (simp add: sample_iteration_fields)
  have o: "\<not> wifi_connected ?o" by simp
  have n: "\<not> check_due ?i sample_ota"
    by (simp add: check_due_def sample_iteration_fields sample_defaults word_le_nat_alt)
  have c: "checkForUpdate (check ?i) (sample_ota\<lparr>m_forceCheckFlag := False\<rparr>) \<noteq> None"
    using checkForUpdate_up_to_date[of "sample_check 200 ''1.0.0''"
        "sample_ota\<lparr>m_forceCheckFlag := False\<rparr>"] getCurrentVersion_sample
    by (simp add: sample_iteration_fields sample_check_fields String_equals_def trim_def
        isspace_def getCurrentVersion_def c_str_def)
  then obtain ok s1 t1 where
    r: "checkForUpdate (check ?i) (sample_ota\<lparr>m_forceCheckFlag := False\<rparr>) = Some (ok, s1, t1)"
    by (cases "checkForUpdate (check ?i) (sample_ota\<lparr>m_forceCheckFlag := False\<rparr>)") auto
  from th[THEN conjunct2, THEN conjunct2, THEN conjunct2, THEN conjunct1, rule_format, OF w]
  have 1: "check_due ?i (fst (forceCheck sample_ota))"
    and v: "check_performed t1"
    and x: "\<exists>s' t'. otaTask_iteration ?i (fst (forceCheck sample_ota)) =
                      Some (s', Store_forceCheckFlag False # t1 @ t') \<and>
                    flag_at_calls True (Store_forceCheckFlag False # t1 @ t') =
                      map (\<lambda>ev. (ev, False)) (t1 @ t') \<and>
                    \<not> check_performed t' \<and> \<not> m_forceCheckFlag s'"
    by (simp_all add: r)
  from x obtain s' t' where
    y: "otaTask_iteration ?i (fst (forceCheck sample_ota)) =
          Some (s', Store_forceCheckFlag False # t1 @ t')"
       "flag_at_calls True (Store_forceCheckFlag False # t1 @ t') =
          map (\<lambda>ev. (ev, False)) (t1 @ t')"
       "\<not> m_forceCheckFlag s'"
    by blast
  have p: "check_performed (t1 @ t')" using v by (simp add: check_performed_def)
  have 2: "\<exists>s' t. otaTask_iteration ?i (fst (forceCheck sample_ota)) =
                     Some (s', Store_forceCheckFlag False # t) \<and>
           flag_at_calls True (Store_forceCheckFlag False # t) = map (\<lambda>ev. (ev, False)) t \<and>
           check_performed t \<and> \<not> m_forceCheckFlag s'"
    using y p by (intro exI[of _ s'] exI[of _ "t1 @ t'"] conjI)
  have 3: "otaTask_iteration ?i sample_ota = Some (sample_ota, [VTaskDelay_ms 300000])"
    unfolding otaTask_iteration_idle[OF w n]
    by (simp add: sample_iteration_fields sample_defaults)
  have f: "m_forceCheckFlag (fst (forceCheck sample_ota))"
    by (simp add: th[THEN conjunct1])
  from th[THEN conjunct2, THEN conjunct2, THEN conjunct2, THEN conjunct2, rule_format, OF o] f
  have 4: "\<exists>t. otaTask_iteration ?o (fst (forceCheck sample_ota)) =
               Some (fst (forceCheck sample_ota), t) \<and>
             \<not> check_performed t \<and> m_forceCheckFlag (fst (forceCheck sample_ota))"
    by blast
  show ?thesis using w n 3 1 2 o 4 by (intro conjI)
qed

theorem force_check_counterexample:
  "snd (forceCheck sample_ota) =
     [Store_forceCheckFlag True, Serial_println ''[AutoOTA] Force check requested'']"
  by (simp add: forceCheck_def log_def sample_defaults)

subsection \<open>Truncation and termination of the strings\<close>

text \<open>
  C10.  On an object whose arrays have their declared sizes, \<^verbatim>\<open>setFirmwareURL\<close>,
  \<^verbatim>\<open>setVersionURL\<close>, \<^verbatim>\<open>setCurrentVersion\<close> and \<^verbatim>\<open>setError\<close> keep the size of the
  array, write NUL into its last byte, and leave in it the first 255, 255, 31 and 127
  bytes of their argument, for an argument of any length.  After the constructor and any
  sequence of configuration calls, \<^verbatim>\<open>begin\<close>, \<^verbatim>\<open>stop\<close>, \<^verbatim>\<open>forceCheck\<close> and
  iterations of the task, every array holds a NUL, so \<^verbatim>\<open>getCurrentVersion()\<close> and
  \<^verbatim>\<open>getLastError()\<close> return strings of at most 31 and 127 bytes that end inside
  their arrays.
\<close>

theorem bounded_strings:
  assumes "buffers_sized s"
  shows
   "length (m_firmwareURL (setFirmwareURL url s)) = 256 \<and>
    m_firmwareURL (setFirmwareURL url s) ! 255 = NUL \<and>
    c_str (m_firmwareURL (setFirmwareURL url s)) = take 255 (c_str url) \<and>
    length (m_versionURL (setVersionURL url s)) = 256 \<and>
    m_versionURL (setVersionURL url s) ! 255 = NUL \<and>
    c_str (m_versionURL (setVersionURL url s)) = take 255 (c_str url) \<and>
    length (m_currentVersion (setCurrentVersion version s)) = 32 \<and>
    m_currentVersion (setCurrentVersion version s) ! 31 = NUL \<and>
    getCurrentVersion (setCurrentVersion version s) = take 31 (c_str version) \<and>
    length (m_lastError (fst (setError error s))) = 128 \<and>
    m_lastError (fst (setError error s)) ! 127 = NUL \<and>
    getLastError (fst (setError error s)) = take 127 (c_str error) \<and>
    (\<forall>cs s' t. run cs (ESP32_AutoOTA s) = Some (s', t) \<longrightarrow>
       strings_terminated s' \<and>
       length (getCurrentVersion s') \<le> 31 \<and> NUL \<in> set (m_currentVersion s') \<and>
       length (getLastError s') \<le> 127 \<and> NUL \<in> set (m_lastError s'))"
proof -
  from assms have l: "length (m_firmwareURL s) = 256" "length (m_versionURL s) = 256"
    "length (m_currentVersion s) = 32" "length (m_lastError s) = 128"
    by (simp_all add: buffers_sized_def)
  note g = get_after_set[OF assms]
  have a: "length (m_firmwareURL (setFirmwareURL url s)) = 256 \<and>
    m_firmwareURL (setFirmwareURL url s) ! 255 = NUL"
    using nth_terminator[of 255 "m_firmwareURL s" url] l by (simp add: setFirmwareURL_def)
  have b: "length (m_versionURL (setVersionURL url s)) = 256 \<and>
    m_versionURL (setVersionURL url s) ! 255 = NUL"
    using nth_terminator[of 255 "m_versionURL s" url] l by (simp add: setVersionURL_def)
  have c: "length (m_currentVersion (setCurrentVersion version s)) = 32 \<and>
    m_currentVersion (setCurrentVersion version s) ! 31 = NUL"
    using nth_terminator[of 31 "m_currentVersion s" version] l
    by (simp add: setCurrentVersion_def)
  have d: "length (m_lastError (fst (setError error s))) = 128 \<and>
    m_lastError (fst (setError error s)) ! 127 = NUL"
    using nth_terminator[of 127 "m_lastError s" error] l by (simp add: setError_state)
  have r: "strings_terminated s' \<and>
       length (getCurrentVersion s') \<le> 31 \<and> NUL \<in> set (m_currentVersion s') \<and>
       length (getLastError s') \<le> 127 \<and> NUL \<in> set (m_lastError s')"
    if "run cs (ESP32_AutoOTA s) = Some (s', t)" for cs s' t
  proof -
    have st: "strings_terminated s'"
      using strings_terminated_run[OF strings_terminated_ctor[OF assms] that] .
    then have "length (c_str (m_currentVersion s')) < length (m_currentVersion s')"
      "length (c_str (m_lastError s')) < length (m_lastError s')"
      by (simp_all add: strings_terminated_def buffers_sized_def strlen_def)
    from this[THEN unterminated_full] st show ?thesis
      by (simp add: strings_terminated_def strlen_def getCurrentVersion_def getLastError_def)
  qed
  show ?thesis using a b c d g(1)[of url] g(2)[of url] g(3)[of version] g(4)[of error] r
    by (intro conjI allI impI) simp_all
qed

theorem bounded_strings_witness:
  "buffers_sized zero_storage \<and>
   getCurrentVersion
     (setCurrentVersion ''0123456789012345678901234567890123456789'' zero_storage) =
     ''0123456789012345678901234567890'' \<and>
   m_currentVersion
     (setCurrentVersion ''0123456789012345678901234567890123456789'' zero_storage) ! 31 = NUL \<and>
   (\<exists>s' t. run [Configure (SetCurrentVersion ''0123456789012345678901234567890123456789''),
                 Configure (SetVersionURL ''http://ota.example/version.txt''),
                 Iteration (sample_iteration 300000 (sample_check 404 [])),
                 Stop]
              (ESP32_AutoOTA zero_storage) = Some (s', t) \<and>
           length (getCurrentVersion s') \<le> 31 \<and> NUL \<in> set (m_currentVersion s') \<and>
           length (getLastError s') \<le> 127 \<and> NUL \<in> set (m_lastError s'))"
proof -
  note th = bounded_strings[OF buffers_sized_zero]
  let ?v = "''0123456789012345678901234567890123456789''"
  let ?i = "sample_iteration 300000 (sample_check 404 [])"
  let ?s2 = "setVersionURL ''http://ota.example/version.txt''
               (setCurrentVersion ?v (ESP32_AutoOTA zero_storage))"
  have 1: "getCurrentVersion (setCurrentVersion ?v zero_storage) =
           ''0123456789012345678901234567890''"
    using th[of _ ?v, THEN conjunct2, THEN conjunct2, THEN conjunct2, THEN conjunct2,
        THEN conjunct2, THEN conjunct2, THEN conjunct2, THEN conjunct2, THEN conjunct1]
    by (simp add: c_str_def)
  have 2: "m_currentVersion (setCurrentVersion ?v zero_storage) ! 31 = NUL"
    using th[of _ ?v, THEN conjunct2, THEN conjunct2, THEN conjunct2, THEN conjunct2,
        THEN conjunct2, THEN conjunct2, THEN conjunct2, THEN conjunct1] .
  have d: "check_due ?i ?s2"
    by (simp add: check_due_def sample_iteration_fields setVersionURL_def
        setCurrentVersion_def ESP32_AutoOTA_def)
  from otaTask_iteration_version_failed[OF sample_iteration_fields(1) d]
  obtain s3 t3 where 3: "otaTask_iteration ?i ?s2 = Some (s3, t3)"
    by (auto simp: sample_iteration_fields sample_check_fields)
  have r: "run [Configure (SetCurrentVersion ?v),
                Configure (SetVersionURL ''http://ota.example/version.txt''),
                Iteration ?i, Stop] (ESP32_AutoOTA zero_storage) =
           Some (fst (stop s3), t3 @ snd (stop s3))"
    by (simp add: 3 case_prod_beta)
  from th[THEN conjunct2, THEN conjunct2, THEN conjunct2, THEN conjunct2,
        THEN conjunct2, THEN conjunct2, THEN conjunct2, THEN conjunct2, THEN conjunct2,
        THEN conjunct2, THEN conjunct2, THEN conjunct2, rule_format, OF r]
  have "length (getCurrentVersion (fst (stop s3))) \<le> 31 \<and>
        NUL \<in> set (m_currentVersion (fst (stop s3))) \<and>
        length (getLastError (fst (stop s3))) \<le> 127 \<and>
        NUL \<in> set (m_lastError (fst (stop s3)))"
    by simp
  with r have "\<exists>s' t. run [Configure (SetCurrentVersion ?v),
                 Configure (SetVersionURL ''http://ota.example/version.txt''),
                 Iteration ?i, Stop] (ESP32_AutoOTA zero_storage) = Some (s', t) \<and>
           length (getCurrentVersion s') \<le> 31 \<and> NUL \<in> set (m_currentVersion s') \<and>
           length (getLastError s') \<le> 127 \<and> NUL \<in> set (m_lastError s')"
    by blast
  with buffers_sized_zero 1 2 show ?thesis by (intro conjI)
qed

end
